theory Spec2Isabelle
  imports Complex_Main
begin

section \<open>Python strings\<close>

text \<open>
  A Python \<open>str\<close> is modelled as a \<^typ>\<open>string\<close>: a list of characters, each a code
  point below 256. On that range \<open>str.lower\<close> maps \<open>A\<close>..\<open>Z\<close> and the upper-case letters
  of Latin-1 (0xC0..0xDE without the multiplication sign 0xD7) to the letter 32 places
  further on, and leaves every other character alone; \<open>str.strip\<close> removes the
  characters for which \<open>str.isspace\<close> holds from both ends.
\<close>

definition py_lower_char :: "char \<Rightarrow> char" where
  "py_lower_char c =
     (let n = (of_char c :: nat)
      in if (65 \<le> n \<and> n \<le> 90) \<or> (192 \<le> n \<and> n \<le> 222 \<and> n \<noteq> 215)
         then char_of (n + 32) else c)"

definition lower :: "string \<Rightarrow> string" where
  "lower s = map py_lower_char s"

definition py_isspace :: "char \<Rightarrow> bool" where
  "py_isspace c =
     (let n = (of_char c :: nat)
      in (9 \<le> n \<and> n \<le> 13) \<or> (28 \<le> n \<and> n \<le> 32) \<or> n = 133 \<or> n = 160)"

definition strip :: "string \<Rightarrow> string" where
  "strip s = rev (dropWhile py_isspace (rev (dropWhile py_isspace s)))"

text \<open>\<open>s.startswith(p)\<close> and the substring test \<open>w in s\<close>.\<close>

fun startswith :: "string \<Rightarrow> string \<Rightarrow> bool" where
  "startswith s [] = True"
| "startswith [] (p # ps) = False"
| "startswith (c # s) (p # ps) = (c = p \<and> startswith s ps)"

fun substring_in :: "string \<Rightarrow> string \<Rightarrow> bool" where
  "substring_in w [] = (w = [])"
| "substring_in w (c # s) = (startswith (c # s) w \<or> substring_in w s)"

section \<open>The URL classifier and the file name sanitizer\<close>

text \<open>
  \<open>sanitize_filename\<close> is \<open>re.sub(r'[<>:"/\\|?*]', '', filename)\<close>: every character of
  the class is deleted. The class holds nine characters; the double quote and the
  backslash are written by their codes.
\<close>

definition forbidden_chars :: "char list" where
  "forbidden_chars =
     [CHR ''<'', CHR ''>'', CHR '':'', CHR 0x22, CHR ''/'', CHR 0x5C, CHR ''|'', CHR ''?'', CHR ''*'']"

definition sanitize_filename :: "string \<Rightarrow> string" where
  "sanitize_filename filename = filter (\<lambda>c. c \<notin> set forbidden_chars) filename"

definition is_playlist_url :: "string \<Rightarrow> bool" where
  "is_playlist_url url =
     (substring_in ''playlist'' (lower url) \<or> substring_in ''list='' (lower url))"

text \<open>
  The five patterns of \<open>is_valid_youtube_url\<close> use literal characters, one \<open>.*\<close> and one
  character class. A pattern is a list of items; an item is an atom or a starred atom.
  \<open>re_search\<close> is \<open>re.search\<close>: the pattern may match at any position of the string. The
  dot of Python's \<open>re\<close> matches every character but the newline.
\<close>

datatype atom = Lit char | AnyChar | OneOf "char list"

datatype item = One atom | Star atom

fun atom_matches :: "atom \<Rightarrow> char \<Rightarrow> bool" where
  "atom_matches (Lit a) c = (c = a)"
| "atom_matches AnyChar c = (c \<noteq> CHR 0x0A)"
| "atom_matches (OneOf cs) c = (c \<in> set cs)"

fun match_here :: "item list \<Rightarrow> string \<Rightarrow> bool" where
  "match_here [] s = True"
| "match_here (One a # rs) [] = False"
| "match_here (One a # rs) (c # s) = (atom_matches a c \<and> match_here rs s)"
| "match_here (Star a # rs) [] = match_here rs []"
| "match_here (Star a # rs) (c # s) =
     (match_here rs (c # s) \<or> (atom_matches a c \<and> match_here (Star a # rs) s))"

fun re_search :: "item list \<Rightarrow> string \<Rightarrow> bool" where
  "re_search p [] = match_here p []"
| "re_search p (c # s) = (match_here p (c # s) \<or> re_search p s)"

definition lit :: "string \<Rightarrow> item list" where
  "lit w = map (\<lambda>c. One (Lit c)) w"

definition youtube_patterns :: "item list list" where
  "youtube_patterns =
     [lit ''youtube.com/watch?v='',
      lit ''youtube.com/playlist?list='',
      lit ''youtu.be/'',
      lit ''youtube.com/'' @ [Star AnyChar, One (OneOf ''?&'')] @ lit ''list='',
      lit ''m.youtube.com/'']"

definition is_valid_youtube_url :: "string \<Rightarrow> bool" where
  "is_valid_youtube_url url =
     list_ex (\<lambda>pattern. re_search pattern (lower url)) youtube_patterns"

section \<open>Python numbers and their formatting\<close>

text \<open>
  A Python \<open>int\<close> is an \<^typ>\<open>int\<close>. A finite Python \<open>float\<close> is the rational number it
  denotes, a \<^typ>\<open>rat\<close>. An arithmetic operation that returns a \<open>float\<close> rounds its
  exact result to a nearby \<open>float\<close>; that rounding is the parameter \<open>fl\<close> of the
  functions below, so what is proved holds for every rounding. Infinities and NaN are
  outside the model.

  \<open>str_int\<close> is \<open>str\<close> on an \<open>int\<close>, \<open>format_02d\<close> the format \<open>:02d\<close> and
  \<open>format_f w p\<close> the format \<open>:w.pf\<close>, which prints the decimal number with \<open>p\<close> places
  nearest to the value, a tie going to the even neighbour.
\<close>

definition digit_char :: "nat \<Rightarrow> char" where
  "digit_char k = ''0123456789'' ! k"

function str_nat :: "nat \<Rightarrow> string" where
  "str_nat n = (if n < 10 then [digit_char n] else str_nat (n div 10) @ [digit_char (n mod 10)])"
  by pat_completeness auto
termination
  by (relation "measure id") auto

declare str_nat.simps [simp del]

definition str_int :: "int \<Rightarrow> string" where
  "str_int i = (if i < 0 then CHR ''-'' # str_nat (nat (- i)) else str_nat (nat i))"

definition format_02d :: "int \<Rightarrow> string" where
  "format_02d i = (if 0 \<le> i \<and> i < 10 then CHR ''0'' # str_int i else str_int i)"

definition round_half_even :: "rat \<Rightarrow> int" where
  "round_half_even q =
     (let f = \<lfloor>q\<rfloor>; r = q - of_int f
      in if r < 1 / 2 then f else if 1 / 2 < r then f + 1 else if even f then f else f + 1)"

definition rjust :: "nat \<Rightarrow> string \<Rightarrow> string" where
  "rjust width s = replicate (width - length s) CHR '' '' @ s"

definition zfill :: "nat \<Rightarrow> string \<Rightarrow> string" where
  "zfill width s = replicate (width - length s) CHR ''0'' @ s"

definition format_f :: "nat \<Rightarrow> nat \<Rightarrow> rat \<Rightarrow> string" where
  "format_f width prec q =
     (let n = nat (round_half_even (\<bar>q\<bar> * 10 ^ prec));
          digits = str_nat (n div 10 ^ prec) @
            (if prec = 0 then [] else CHR ''.'' # zfill prec (str_nat (n mod 10 ^ prec)))
      in rjust width ((if q < 0 then ''-'' else []) @ digits))"

section \<open>Exceptions\<close>

text \<open>
  An exception is its class name and its message; \<open>str(e)\<close> is the message. Every
  exception of the model is an \<open>Exception\<close>, so \<open>except Exception\<close> catches it. A function
  that can raise returns an \<open>outcome\<close> beside the state it leaves behind.
\<close>

datatype exn = Exn string string

fun str_exn :: "exn \<Rightarrow> string" where
  "str_exn (Exn cls msg) = msg"

datatype outcome = Returned | Raised exn

section \<open>The window's state\<close>

text \<open>
  The fields of \<open>PlaylistDownloaderGUI\<close> that the download logic reads or writes.
  \<open>output_text\<close> is the text inserted so far, each piece with its tag. \<open>dialogs\<close> are the
  \<open>messagebox.showerror\<close> calls made so far, each a title and a message. \<open>threads\<close>
  are the background threads created and started by \<open>download_content\<close>, each with the
  arguments of its \<open>run\<close>; a thread is named by its position in that list.
  \<open>active_downloads\<close> is the list of the same name. What \<open>print\<close> writes to the
  standard output is left out.
\<close>

datatype button_state = NORMAL | DISABLED

record gui =
  stop_flag :: bool
  active_downloads :: "nat list"
  threads :: "(string \<times> string \<times> bool) list"
  url_var :: string
  dir_var :: string
  audio_var :: int
  progress_var :: rat
  progress_label_var :: string
  status_var :: string
  output_text :: "(string \<times> string) list"
  download_btn :: button_state
  dialogs :: "(string \<times> string) list"

section \<open>The logger\<close>

text \<open>
  \<open>YTDlpLogger\<close> keeps references to the output widget, to the task's counter
  \<open>video_counter\<close> (a one-entry dictionary shared with the progress hook), to the
  progress label, and the values \<open>total_videos\<close> and \<open>audio_only\<close>. The first three are
  \<open>None\<close> or a reference; the model keeps whether they are set, and passes the counter's
  value \<open>video_counter['current']\<close> through every function that can change it.
\<close>

record logger =
  lg_video_counter :: bool
  lg_progress_label_var :: bool
  lg_total_videos :: "nat option"
  lg_audio_only :: bool

definition progress_label :: "int \<Rightarrow> nat \<Rightarrow> string" where
  "progress_label current total_videos =
     ''Progress: '' @ str_int current @ ''/'' @ str_nat total_videos"

definition write_to_output :: "logger \<Rightarrow> string \<Rightarrow> string \<Rightarrow> int \<times> gui \<Rightarrow> int \<times> gui" where
  "write_to_output lg msg tag st =
     (case st of (video_counter, g) \<Rightarrow>
        (let g1 = g\<lparr>output_text := output_text g @ [(msg @ [CHR 0x0A], tag)]\<rparr>
         in case lg_total_videos lg of
              None \<Rightarrow> (video_counter, g1)
            | Some total_videos \<Rightarrow>
                if \<not> lg_audio_only lg \<and> lg_video_counter lg \<and> lg_progress_label_var lg
                   \<and> startswith msg ''[Merger] Merging formats into''
                then (video_counter + 1,
                      g1\<lparr>progress_label_var := progress_label (video_counter + 1) total_videos\<rparr>)
                else (video_counter, g1)))"

definition debug :: "logger \<Rightarrow> string \<Rightarrow> int \<times> gui \<Rightarrow> int \<times> gui" where
  "debug lg msg st =
     (if strip msg \<noteq> [] then
        (if substring_in ''[Merger] Merging formats into'' msg then write_to_output lg msg ''info'' st
         else if substring_in ''[download]'' msg then write_to_output lg msg ''progress'' st
         else write_to_output lg msg ''info'' st)
      else st)"

definition warning :: "logger \<Rightarrow> string \<Rightarrow> int \<times> gui \<Rightarrow> int \<times> gui" where
  "warning lg msg st =
     (if strip msg \<noteq> [] then write_to_output lg (''[warning] '' @ msg) ''warning'' st else st)"

definition error :: "logger \<Rightarrow> string \<Rightarrow> int \<times> gui \<Rightarrow> int \<times> gui" where
  "error lg msg st =
     (if strip msg \<noteq> [] then write_to_output lg (''[error] '' @ msg) ''error'' st else st)"

section \<open>Progress events\<close>

text \<open>
  The dictionary \<open>d\<close> that the fetch service passes to a progress hook. A key is absent,
  holds \<open>None\<close>, or holds a value of the type the service documents for it: byte counts,
  the seconds of \<open>eta\<close> and the fragment numbers are \<open>int\<close>s, \<open>speed\<close> is a \<open>float\<close>.
  \<open>status\<close> is always there.
\<close>

datatype 'a field = Absent | PyNone | Val 'a

record progress_dict =
  status :: string
  downloaded_bytes :: "int field"
  total_bytes :: "int field"
  speed :: "rat field"
  eta :: "int field"
  fragment_index :: "int field"
  fragments :: "int field"
  total_fragments :: "int field"

text \<open>\<open>k in d\<close>, the truth value of \<open>d[k]\<close>, and \<open>str(d[k])\<close> for a key that is there.\<close>

fun present :: "'a field \<Rightarrow> bool" where
  "present Absent = False"
| "present PyNone = True"
| "present (Val v) = True"

fun truthy :: "int field \<Rightarrow> bool" where
  "truthy (Val n) = (n \<noteq> 0)"
| "truthy PyNone = False"
| "truthy Absent = False"

fun str_field :: "int field \<Rightarrow> string" where
  "str_field (Val n) = str_int n"
| "str_field PyNone = ''None''"
| "str_field Absent = []"

text \<open>
  \<open>d[a] / d[b]\<close> on two keys that hold an \<open>int\<close> or \<open>None\<close>: a missing key raises
  \<open>KeyError\<close>, \<open>None\<close> as an operand \<open>TypeError\<close>, a zero divisor \<open>ZeroDivisionError\<close>;
  otherwise the result is the quotient, rounded to a \<open>float\<close>.
\<close>

fun type_name :: "int field \<Rightarrow> string" where
  "type_name (Val n) = ''int''"
| "type_name PyNone = ''NoneType''"
| "type_name Absent = []"

definition quoted :: "string \<Rightarrow> string" where
  "quoted s = CHR 0x27 # s @ [CHR 0x27]"

definition truediv ::
  "(rat \<Rightarrow> rat) \<Rightarrow> string \<Rightarrow> int field \<Rightarrow> string \<Rightarrow> int field \<Rightarrow> exn + rat"
where
  "truediv fl ka a kb b =
     (case (a, b) of
        (Absent, _) \<Rightarrow> Inl (Exn ''KeyError'' (quoted ka))
      | (_, Absent) \<Rightarrow> Inl (Exn ''KeyError'' (quoted kb))
      | (Val x, Val y) \<Rightarrow>
          if y = 0 then Inl (Exn ''ZeroDivisionError'' ''division by zero'')
          else Inr (fl (of_int x / of_int y))
      | _ \<Rightarrow> Inl (Exn ''TypeError''
                 (''unsupported operand type(s) for /: '' @ quoted (type_name a) @ '' and ''
                    @ quoted (type_name b))))"

section \<open>The progress hook and its two handlers\<close>

text \<open>
  The local strings of \<open>_handle_download_progress\<close>, under their names there. A leading
  underscore of a Python name is dropped, since a name here starts with a letter.
\<close>

definition speed_str :: "(rat \<Rightarrow> rat) \<Rightarrow> rat field \<Rightarrow> string" where
  "speed_str fl sp =
     (case sp of
        Val s \<Rightarrow> if s \<noteq> 0 then format_f 0 2 (fl (fl (s / 1024) / 1024)) @ ''MiB/s'' else ''?''
      | PyNone \<Rightarrow> ''?''
      | Absent \<Rightarrow> ''?'')"

definition eta_str :: "int field \<Rightarrow> string" where
  "eta_str e =
     (case e of
        Val t \<Rightarrow> if t \<noteq> 0 then format_02d (t div 60) @ '':'' @ format_02d (t mod 60) else ''?''
      | PyNone \<Rightarrow> ''?''
      | Absent \<Rightarrow> ''?'')"

definition frag_str :: "progress_dict \<Rightarrow> string" where
  "frag_str d =
     (if present (fragments d) \<and> present (fragment_index d)
      then ''(frag '' @ str_field (fragment_index d) @ ''/'' @ str_field (fragments d) @ '')''
      else if present (fragment_index d) \<and> present (total_fragments d)
      then ''(frag '' @ str_field (fragment_index d) @ ''/'' @ str_field (total_fragments d) @ '')''
      else [])"

definition size_mb :: "(rat \<Rightarrow> rat) \<Rightarrow> int field \<Rightarrow> rat" where
  "size_mb fl tb = (case tb of Val t \<Rightarrow> if t \<noteq> 0 then fl (fl (of_int t / 1024) / 1024) else 0
                   | PyNone \<Rightarrow> 0 | Absent \<Rightarrow> 0)"

definition progress_line :: "(rat \<Rightarrow> rat) \<Rightarrow> rat \<Rightarrow> progress_dict \<Rightarrow> string" where
  "progress_line fl percent d =
     ''[download]  '' @ format_f 5 1 percent @ ''% of ~ '' @ format_f 7 2 (size_mb fl (total_bytes d))
       @ ''MiB at '' @ speed_str fl (speed d) @ '' ETA '' @ eta_str (eta d) @ '' '' @ frag_str d"

text \<open>
  \<open>_handle_download_progress\<close>: the quotient is computed first, so an exception of the
  division leaves the window as it was. \<open>downloaded_mb\<close> is computed by the source and
  never used; it cannot raise once the quotient exists, and is left out.
\<close>

definition handle_download_progress ::
  "(rat \<Rightarrow> rat) \<Rightarrow> progress_dict \<Rightarrow> gui \<Rightarrow> outcome \<times> gui"
where
  "handle_download_progress fl d g =
     (case truediv fl ''downloaded_bytes'' (downloaded_bytes d) ''total_bytes'' (total_bytes d) of
        Inl e \<Rightarrow> (Raised e, g)
      | Inr ratio \<Rightarrow>
          (let percent = fl (ratio * 100)
           in (Returned,
               g\<lparr>progress_var := percent,
                 output_text := output_text g @ [(progress_line fl percent d @ [CHR 0x0A], ''progress'')]\<rparr>)))"

definition handle_download_finished ::
  "progress_dict \<Rightarrow> bool \<Rightarrow> int \<Rightarrow> nat \<Rightarrow> gui \<Rightarrow> int \<times> gui"
where
  "handle_download_finished d audio_only video_counter total_videos g =
     (let g1 = g\<lparr>progress_var := 100,
                 output_text := output_text g @ [(''Status: Finished'' @ [CHR 0x0A], ''info'')]\<rparr>
      in if audio_only
         then (video_counter + 1,
               g1\<lparr>progress_label_var := progress_label (video_counter + 1) total_videos\<rparr>)
         else (video_counter, g1))"

text \<open>
  \<open>progress_hook\<close> is the closure that both download processes define, word for word
  the same; \<open>audio_only\<close>, \<open>total_videos\<close> and the counter are what it closes over.
\<close>

definition stopped_by_user :: exn where
  "stopped_by_user = Exn ''Exception'' ''Download stopped by user.''"

definition progress_hook ::
  "(rat \<Rightarrow> rat) \<Rightarrow> bool \<Rightarrow> nat \<Rightarrow> progress_dict \<Rightarrow> int \<times> gui \<Rightarrow> outcome \<times> int \<times> gui"
where
  "progress_hook fl audio_only total_videos d st =
     (case st of (video_counter, g) \<Rightarrow>
        if stop_flag g then (Raised stopped_by_user, video_counter, g)
        else if status d = ''downloading'' \<and> present (downloaded_bytes d)
                \<and> present (total_bytes d) \<and> truthy (total_bytes d)
        then (case handle_download_progress fl d g of (r, g') \<Rightarrow> (r, video_counter, g'))
        else if status d = ''finished''
        then (case handle_download_finished d audio_only video_counter total_videos g of
                (video_counter', g') \<Rightarrow> (Returned, video_counter', g'))
        else (Returned, video_counter, g))"

section \<open>The options handed to the fetch service\<close>

text \<open>
  \<open>os.path.join\<close> with two arguments, as \<open>posixpath\<close> defines it. The options are the
  dictionary \<open>_get_ydl_options\<close> returns, without its two callbacks (the hook and the
  logger above); \<open>merge_output_format\<close> and \<open>postprocessors\<close> are each set in one mode
  only. \<open>ffmpeg_path\<close> is the path computed when the downloader is created.
\<close>

definition os_path_join :: "string \<Rightarrow> string \<Rightarrow> string" where
  "os_path_join a b =
     (if startswith b ''/'' then b
      else if a = [] \<or> last a = CHR ''/'' then a @ b
      else a @ ''/'' @ b)"

record ydl_options =
  outtmpl :: string
  ignoreerrors :: bool
  noplaylist :: bool
  quiet :: bool
  ffmpeg_location :: string
  force_overwrites :: bool
  no_part :: bool
  geo_bypass :: bool
  format_selector :: string
  postprocessors :: "(string \<times> string) list list"
  merge_output_format :: "string option"

definition get_ydl_options :: "string \<Rightarrow> string \<Rightarrow> bool \<Rightarrow> ydl_options" where
  "get_ydl_options ffmpeg_path output_dir audio_only =
     (let base_opts =
            \<lparr>outtmpl = os_path_join output_dir ''%(title)s.%(ext)s'',
             ignoreerrors = True,
             noplaylist = False,
             quiet = False,
             ffmpeg_location = ffmpeg_path,
             force_overwrites = True,
             no_part = True,
             geo_bypass = True,
             format_selector = [],
             postprocessors = [],
             merge_output_format = None\<rparr>
      in if audio_only
         then base_opts\<lparr>format_selector := ''bestaudio/best'',
                postprocessors := [[(''key'', ''FFmpegExtractAudio''), (''preferredcodec'', ''mp3'')]]\<rparr>
         else base_opts\<lparr>format_selector := ''bestvideo+bestaudio/best'',
                merge_output_format := Some ''mp4''\<rparr>)"

section \<open>The fetch service and the background task\<close>

text \<open>
  The fetch service (\<open>yt_dlp\<close>) and the operating system are outside the repository.
  A \<open>service\<close> says what they do for one task: whether creating the directory raises,
  what \<open>extract_info\<close> returns or raises, what happens, in order, while \<open>download\<close>
  runs, and whether \<open>download\<close> raises an error of its own at its end. What happens
  during \<open>download\<close> is a list of steps: the service calls the progress hook or one of
  the logger's three methods, or another thread (the UI thread running an intent of the
  user, or another task) changes the window's state between two such calls. A callback
  is one step: it is not interrupted.

  Of the metadata, the task reads the title, the duration and the number of entries.
\<close>

record media_info =
  title :: "string field"
  duration :: "int field"
  entries :: "nat field"

datatype step =
    Hook progress_dict
  | LogDebug string
  | LogWarning string
  | LogError string
  | Interleaved "gui \<Rightarrow> gui"

record service =
  makedirs_error :: "exn option"
  extract_info :: "exn + media_info"
  schedule :: "step list"
  download_error :: "exn option"

text \<open>
  Modelled from the spec: \<open>download\<close> of the fetch service is not code of the
  repository. Sections 6 and 7 of the specification give the service an error-tolerance
  flag, under which the failure of an item is skipped rather than aborting the
  download; the flag is the option \<open>ignoreerrors\<close>, which \<open>_get_ydl_options\<close> sets. So
  \<open>feed\<close>, the run of \<open>download\<close> over a list of steps with the options it was given,
  lets an exception of the progress hook end the download only when \<open>ignoreerrors\<close> is
  off. When it is on, the service takes the exception and goes on; what it logs about
  it and which callbacks follow are the next steps of the list.
\<close>

fun feed ::
  "(rat \<Rightarrow> rat) \<Rightarrow> ydl_options \<Rightarrow> logger \<Rightarrow> bool \<Rightarrow> nat \<Rightarrow> step list \<Rightarrow> int \<times> gui
     \<Rightarrow> outcome \<times> int \<times> gui"
where
  "feed fl ydl_opts lg audio_only total_videos [] st = (Returned, fst st, snd st)"
| "feed fl ydl_opts lg audio_only total_videos (Hook d # rest) st =
     (case progress_hook fl audio_only total_videos d st of
        (Raised e, video_counter, g) \<Rightarrow>
          if ignoreerrors ydl_opts
          then feed fl ydl_opts lg audio_only total_videos rest (video_counter, g)
          else (Raised e, video_counter, g)
      | (Returned, video_counter, g) \<Rightarrow>
          feed fl ydl_opts lg audio_only total_videos rest (video_counter, g))"
| "feed fl ydl_opts lg audio_only total_videos (LogDebug msg # rest) st =
     feed fl ydl_opts lg audio_only total_videos rest (debug lg msg st)"
| "feed fl ydl_opts lg audio_only total_videos (LogWarning msg # rest) st =
     feed fl ydl_opts lg audio_only total_videos rest (warning lg msg st)"
| "feed fl ydl_opts lg audio_only total_videos (LogError msg # rest) st =
     feed fl ydl_opts lg audio_only total_videos rest (error lg msg st)"
| "feed fl ydl_opts lg audio_only total_videos (Interleaved f # rest) st =
     feed fl ydl_opts lg audio_only total_videos rest (fst st, f (snd st))"

text \<open>\<open>info.get(key, default)\<close> inside an f-string, and \<open>len(info.get('entries', []))\<close>.\<close>

fun get_str :: "string field \<Rightarrow> string \<Rightarrow> string" where
  "get_str (Val s) dflt = s"
| "get_str PyNone dflt = ''None''"
| "get_str Absent dflt = dflt"

fun get_int_str :: "int field \<Rightarrow> string \<Rightarrow> string" where
  "get_int_str (Val n) dflt = str_int n"
| "get_int_str PyNone dflt = ''None''"
| "get_int_str Absent dflt = dflt"

fun len_entries :: "nat field \<Rightarrow> exn + nat" where
  "len_entries (Val n) = Inr n"
| "len_entries PyNone = Inl (Exn ''TypeError'' (''object of type '' @ quoted ''NoneType'' @ '' has no len()''))"
| "len_entries Absent = Inr 0"

definition task_logger :: "nat \<Rightarrow> bool \<Rightarrow> logger" where
  "task_logger total_videos audio_only =
     \<lparr>lg_video_counter = True, lg_progress_label_var = True,
      lg_total_videos = Some total_videos, lg_audio_only = audio_only\<rparr>"

text \<open>
  The two download processes. Each resolves the metadata, sets the label to
  \<open>0/total\<close>, creates the logger with the task's counter, writes two lines through it,
  builds the options, lets the service download with them, and on a normal return sets
  the status and the final label. The URL goes to the service only. \<open>ffmpeg_path\<close> is
  the field of that name of the downloader.
\<close>

definition download_playlist_process ::
  "(rat \<Rightarrow> rat) \<Rightarrow> string \<Rightarrow> service \<Rightarrow> string \<Rightarrow> string \<Rightarrow> bool \<Rightarrow> gui \<Rightarrow> outcome \<times> gui"
where
  "download_playlist_process fl ffmpeg_path sv playlist_url output_dir audio_only g =
     (case makedirs_error sv of
        Some e \<Rightarrow> (Raised e, g)
      | None \<Rightarrow>
     (case extract_info sv of
        Inl e \<Rightarrow> (Raised e, g)
      | Inr info \<Rightarrow>
     (case len_entries (entries info) of
        Inl e \<Rightarrow> (Raised e, g)
      | Inr total_videos \<Rightarrow>
          (let video_counter = 0;
               g1 = g\<lparr>progress_label_var := progress_label 0 total_videos\<rparr>;
               ydl_logger = task_logger total_videos audio_only;
               st1 = write_to_output ydl_logger
                       (''Downloading playlist: '' @ get_str (title info) ''Unknown'') ''info''
                       (video_counter, g1);
               st2 = write_to_output ydl_logger
                       (''Total videos in playlist: '' @ str_nat total_videos) ''info'' st1;
               ydl_opts = get_ydl_options ffmpeg_path output_dir audio_only
           in case feed fl ydl_opts ydl_logger audio_only total_videos (schedule sv) st2 of
                (Raised e, video_counter', g2) \<Rightarrow> (Raised e, g2)
              | (Returned, video_counter', g2) \<Rightarrow>
                  (case download_error sv of
                     Some e \<Rightarrow> (Raised e, g2)
                   | None \<Rightarrow>
                       (Returned,
                        g2\<lparr>status_var := ''Playlist download completed!'',
                           progress_label_var := progress_label video_counter' total_videos\<rparr>))))))"

definition download_video_process ::
  "(rat \<Rightarrow> rat) \<Rightarrow> string \<Rightarrow> service \<Rightarrow> string \<Rightarrow> string \<Rightarrow> bool \<Rightarrow> gui \<Rightarrow> outcome \<times> gui"
where
  "download_video_process fl ffmpeg_path sv video_url output_dir audio_only g =
     (case makedirs_error sv of
        Some e \<Rightarrow> (Raised e, g)
      | None \<Rightarrow>
     (case extract_info sv of
        Inl e \<Rightarrow> (Raised e, g)
      | Inr info \<Rightarrow>
          (let video_title = get_str (title info) ''Unknown Video'';
               total_videos = 1;
               video_counter = 0;
               g1 = g\<lparr>progress_label_var := progress_label 0 total_videos\<rparr>;
               ydl_logger = task_logger total_videos audio_only;
               st1 = write_to_output ydl_logger
                       (''Downloading video: '' @ video_title) ''info'' (video_counter, g1);
               st2 = write_to_output ydl_logger
                       (''Duration: '' @ get_int_str (duration info) ''Unknown'' @ '' seconds'')
                       ''info'' st1;
               ydl_opts = get_ydl_options ffmpeg_path output_dir audio_only
           in case feed fl ydl_opts ydl_logger audio_only total_videos (schedule sv) st2 of
                (Raised e, video_counter', g2) \<Rightarrow> (Raised e, g2)
              | (Returned, video_counter', g2) \<Rightarrow>
                  (case download_error sv of
                     Some e \<Rightarrow> (Raised e, g2)
                   | None \<Rightarrow>
                       (Returned,
                        g2\<lparr>status_var := ''Video download completed!'',
                           progress_label_var := progress_label video_counter' total_videos\<rparr>)))))"

text \<open>
  \<open>run\<close>, the body of the thread that \<open>download_content\<close> starts, for the thread
  \<open>current_thread\<close>: the \<open>try\<close> block, the handler of \<open>except Exception\<close> and the
  \<open>finally\<close> block. \<open>list.remove\<close> deletes the first occurrence.
\<close>

definition run ::
  "(rat \<Rightarrow> rat) \<Rightarrow> string \<Rightarrow> service \<Rightarrow> nat \<Rightarrow> string \<Rightarrow> string \<Rightarrow> bool \<Rightarrow> gui \<Rightarrow> gui"
where
  "run fl ffmpeg_path sv current_thread url output_dir audio_only g =
     (let g1 = g\<lparr>active_downloads := active_downloads g @ [current_thread]\<rparr>;
          body = (if is_playlist_url url
                  then download_playlist_process fl ffmpeg_path sv url output_dir audio_only g1
                  else download_video_process fl ffmpeg_path sv url output_dir audio_only g1);
          g2 = (case body of
                  (Returned, g') \<Rightarrow> g'
                | (Raised e, g') \<Rightarrow> g'\<lparr>status_var := ''Error: '' @ str_exn e\<rparr>);
          g3 = (if current_thread \<in> set (active_downloads g2)
                then g2\<lparr>active_downloads := remove1 current_thread (active_downloads g2)\<rparr>
                else g2)
      in g3\<lparr>download_btn := NORMAL, progress_var := 0\<rparr>)"

definition download_content :: "string \<Rightarrow> string \<Rightarrow> bool \<Rightarrow> gui \<Rightarrow> gui" where
  "download_content url output_dir audio_only g =
     g\<lparr>threads := threads g @ [(url, output_dir, audio_only)]\<rparr>"

section \<open>The intents of the user\<close>

definition validate_url :: "gui \<Rightarrow> gui" where
  "validate_url g =
     (let url = strip (url_var g)
      in if url \<noteq> [] \<and> is_valid_youtube_url url
         then (if is_playlist_url url
               then g\<lparr>download_btn := NORMAL, status_var := ''Ready to download playlist.''\<rparr>
               else g\<lparr>download_btn := NORMAL, status_var := ''Ready to download video.''\<rparr>)
         else (if url \<noteq> []
               then g\<lparr>download_btn := DISABLED, status_var := ''Enter a valid YouTube URL.''\<rparr>
               else g\<lparr>download_btn := DISABLED,
                      status_var := ''Enter a YouTube playlist or video URL.''\<rparr>))"

definition start_download :: "gui \<Rightarrow> gui" where
  "start_download g =
     (let url = strip (url_var g);
          output_dir = (if strip (dir_var g) \<noteq> [] then strip (dir_var g) else ''downloads'');
          audio_only = (audio_var g = 1)
      in if url = []
         then g\<lparr>dialogs := dialogs g @ [(''Error'', ''Please enter a YouTube URL.'')]\<rparr>
         else if \<not> is_valid_youtube_url url
         then g\<lparr>dialogs := dialogs g @ [(''Error'', ''Please enter a valid YouTube URL.'')]\<rparr>
         else
           (let content_type = (if is_playlist_url url then ''playlist'' else ''video'')
            in download_content url output_dir audio_only
                 (g\<lparr>download_btn := DISABLED,
                    progress_var := 0,
                    status_var := ''Downloading '' @ content_type @ ''...'',
                    stop_flag := False\<rparr>)))"

definition stop_download :: "gui \<Rightarrow> gui" where
  "stop_download g = g\<lparr>stop_flag := True, status_var := ''Stopping current download...''\<rparr>"

definition stop_all_downloads :: "gui \<Rightarrow> gui" where
  "stop_all_downloads g =
     (let g1 = g\<lparr>stop_flag := True\<rparr>
      in if active_downloads g1 \<noteq> []
         then g1\<lparr>status_var := ''Stopping '' @ str_nat (length (active_downloads g1))
                                  @ '' active download(s)...'',
                 active_downloads := [],
                 download_btn := NORMAL,
                 progress_var := 0,
                 progress_label_var := ''Progress: 0/0'',
                 status_var := ''All downloads stopped.''\<rparr>
         else g1\<lparr>status_var := ''No active downloads to stop.''\<rparr>)"

section \<open>The window after start-up, and typing a URL\<close>

text \<open>
  \<open>initial_gui\<close> is the state that \<open>__init__\<close> and \<open>create_widgets\<close> leave: empty
  variables, the label \<open>Progress: 0/0\<close>, the status \<open>Ready.\<close> and a disabled download
  button. Writing the URL variable runs \<open>validate_url\<close>, which is registered as its
  trace.
\<close>

definition initial_gui :: gui where
  "initial_gui =
     \<lparr>stop_flag = False,
      active_downloads = [],
      threads = [],
      url_var = [],
      dir_var = [],
      audio_var = 0,
      progress_var = 0,
      progress_label_var = ''Progress: 0/0'',
      status_var = ''Ready.'',
      output_text = [],
      download_btn = DISABLED,
      dialogs = []\<rparr>"

definition set_url :: "string \<Rightarrow> gui \<Rightarrow> gui" where
  "set_url u g = validate_url (g\<lparr>url_var := u\<rparr>)"

section \<open>Notions for stating the properties\<close>

text \<open>
  The counter and the window at the moment a download process hands over to the
  service, after the label is set and the logger has written its two lines: the state
  in which the first callback arrives.
\<close>

definition video_begun :: "media_info \<Rightarrow> bool \<Rightarrow> gui \<Rightarrow> int \<times> gui" where
  "video_begun info audio_only g =
     write_to_output (task_logger 1 audio_only)
       (''Duration: '' @ get_int_str (duration info) ''Unknown'' @ '' seconds'') ''info''
       (write_to_output (task_logger 1 audio_only)
          (''Downloading video: '' @ get_str (title info) ''Unknown Video'') ''info''
          (0, g\<lparr>progress_label_var := progress_label 0 1\<rparr>))"

definition playlist_begun :: "media_info \<Rightarrow> nat \<Rightarrow> bool \<Rightarrow> gui \<Rightarrow> int \<times> gui" where
  "playlist_begun info total_videos audio_only g =
     write_to_output (task_logger total_videos audio_only)
       (''Total videos in playlist: '' @ str_nat total_videos) ''info''
       (write_to_output (task_logger total_videos audio_only)
          (''Downloading playlist: '' @ get_str (title info) ''Unknown'') ''info''
          (0, g\<lparr>progress_label_var := progress_label 0 total_videos\<rparr>))"

text \<open>The steps that are callbacks of the service into the task.\<close>

fun is_callback :: "step \<Rightarrow> bool" where
  "is_callback (Interleaved f) = False"
| "is_callback (Hook d) = True"
| "is_callback (LogDebug msg) = True"
| "is_callback (LogWarning msg) = True"
| "is_callback (LogError msg) = True"

text \<open>
  What the specification calls the format \<open>mm:ss\<close>: two or more digits of minutes, a
  colon, and two digits of seconds below sixty.
\<close>

definition is_digit :: "char \<Rightarrow> bool" where
  "is_digit c = (c \<in> set ''0123456789'')"

definition mm_ss :: "string \<Rightarrow> bool" where
  "mm_ss s =
     (let minutes = takeWhile (\<lambda>c. c \<noteq> CHR '':'') s;
          rest = dropWhile (\<lambda>c. c \<noteq> CHR '':'') s
      in 2 \<le> length minutes \<and> list_all is_digit minutes
         \<and> (case rest of
               [colon, a, b] \<Rightarrow> a \<in> set ''012345'' \<and> is_digit b
             | _ \<Rightarrow> False))"

section \<open>Example values\<close>

text \<open>
  Values at which the theorems below are evaluated. \<open>exact\<close> is the rounding that
  changes nothing; the examples use numbers that a \<open>float\<close> holds exactly, so no
  operation on them rounds. \<open>finished_video_gui\<close> is the window after one video was
  downloaded in video mode from the initial window: the URL is typed, the download is
  started, and the thread runs to its end.
\<close>

definition exact :: "rat \<Rightarrow> rat" where
  "exact q = q"

definition ffmpeg_exe :: string where
  "ffmpeg_exe = ''ffmpeg.exe''"

definition watch_url :: string where
  "watch_url = ''https://www.youtube.com/watch?v=abc123''"

definition downloading_event :: progress_dict where
  "downloading_event =
     \<lparr>status = ''downloading'', downloaded_bytes = Val 524288, total_bytes = Val 1048576,
      speed = Val 2097152, eta = Val 125,
      fragment_index = Absent, fragments = Absent, total_fragments = Absent\<rparr>"

definition finished_event :: progress_dict where
  "finished_event =
     \<lparr>status = ''finished'', downloaded_bytes = Val 1048576, total_bytes = Val 1048576,
      speed = PyNone, eta = PyNone,
      fragment_index = Absent, fragments = Absent, total_fragments = Absent\<rparr>"

definition merger_line :: string where
  "merger_line = ''[Merger] Merging formats into downloads/Clip.mp4''"

definition clip_info :: media_info where
  "clip_info = \<lparr>title = Val ''Clip'', duration = Val 7, entries = Absent\<rparr>"

definition video_service :: service where
  "video_service =
     \<lparr>makedirs_error = None,
      extract_info = Inr clip_info,
      schedule = [Hook downloading_event, Hook finished_event, LogDebug merger_line],
      download_error = None\<rparr>"

definition finished_video_gui :: gui where
  "finished_video_gui =
     run exact ffmpeg_exe video_service 0 watch_url ''downloads'' False
       (start_download (set_url watch_url initial_gui))"

text \<open>
  \<open>running_video_gui\<close> is the window in the middle of the example download: the thread
  is registered and the first progress event has been shown.
\<close>

definition running_video_gui :: gui where
  "running_video_gui =
     snd (snd (feed exact (get_ydl_options ffmpeg_exe ''downloads'' False)
                 (task_logger 1 False) False 1 [Hook downloading_event]
       (video_begun clip_info False
          ((start_download (set_url watch_url initial_gui))\<lparr>active_downloads := [0]\<rparr>))))"

text \<open>
  \<open>stopped_service\<close> is the example download during which the user stops the current
  download after the first progress event: the next progress callback follows, then
  the service logs an error and returns.
\<close>

definition stopped_service :: service where
  "stopped_service =
     \<lparr>makedirs_error = None,
      extract_info = Inr clip_info,
      schedule = [Hook downloading_event, Interleaved stop_download,
                  Hook downloading_event, LogError ''ERROR: Download stopped by user.''],
      download_error = None\<rparr>"

section \<open>Facts about strings and patterns\<close>

lemma startswith_iff: "startswith s p \<longleftrightarrow> (\<exists>r. s = p @ r)"
  by (induction s p rule: startswith.induct) auto

lemma substring_in_iff: "substring_in w s \<longleftrightarrow> (\<exists>a b. s = a @ w @ b)"
proof (induction s)
  case Nil
  then show ?case by auto
next
  case (Cons c s)
  show ?case
  proof
    assume "substring_in w (c # s)"
    then consider "startswith (c # s) w" | "substring_in w s" by auto
    then show "\<exists>a b. c # s = a @ w @ b"
    proof cases
      case 1
      then obtain r where "c # s = w @ r" by (auto simp: startswith_iff)
      then have "c # s = [] @ w @ r" by simp
      then show ?thesis by blast
    next
      case 2
      then obtain a b where "s = a @ w @ b" using Cons.IH by auto
      then have "c # s = (c # a) @ w @ b" by simp
      then show ?thesis by blast
    qed
  next
    assume "\<exists>a b. c # s = a @ w @ b"
    then obtain a b where ab: "c # s = a @ w @ b" by blast
    show "substring_in w (c # s)"
    proof (cases a)
      case Nil
      then have "startswith (c # s) w" using ab by (auto simp: startswith_iff)
      then show ?thesis by simp
    next
      case (Cons x a')
      then have "s = a' @ w @ b" using ab by simp
      then have "substring_in w s" using Cons.IH by blast
      then show ?thesis by simp
    qed
  qed
qed

lemma match_here_lit:
  "match_here (lit w @ rest) s \<longleftrightarrow> (\<exists>r. s = w @ r \<and> match_here rest r)"
proof (induction w arbitrary: s)
  case Nil
  then show ?case by (simp add: lit_def)
next
  case (Cons x w)
  have step: "match_here (lit (x # w) @ rest) s \<longleftrightarrow>
      (\<exists>t. s = x # t \<and> match_here (lit w @ rest) t)"
    by (cases s) (auto simp: lit_def)
  show ?case unfolding step Cons.IH by auto
qed

lemma match_here_lit_only: "match_here (lit w) s \<longleftrightarrow> startswith s w"
  using match_here_lit [of w "[]" s] by (simp add: startswith_iff)

lemma re_search_iff: "re_search p s \<longleftrightarrow> (\<exists>a t. s = a @ t \<and> match_here p t)"
proof (induction s)
  case Nil
  then show ?case by simp
next
  case (Cons c s)
  show ?case
  proof
    assume "re_search p (c # s)"
    then consider "match_here p (c # s)" | "re_search p s" by auto
    then show "\<exists>a t. c # s = a @ t \<and> match_here p t"
    proof cases
      case 1
      then have "c # s = [] @ (c # s) \<and> match_here p (c # s)" by simp
      then show ?thesis by blast
    next
      case 2
      then obtain a t where "s = a @ t" "match_here p t" using Cons.IH by auto
      then have "c # s = (c # a) @ t \<and> match_here p t" by simp
      then show ?thesis by blast
    qed
  next
    assume "\<exists>a t. c # s = a @ t \<and> match_here p t"
    then obtain a t where at: "c # s = a @ t" "match_here p t" by blast
    show "re_search p (c # s)"
    proof (cases a)
      case Nil
      then have "t = c # s" using at by simp
      then show ?thesis using at(2) by simp
    next
      case (Cons x a')
      then have "s = a' @ t" using at by simp
      then have "re_search p s" using Cons.IH at(2) by blast
      then show ?thesis by simp
    qed
  qed
qed

lemma re_search_lit: "re_search (lit w) s \<longleftrightarrow> (\<exists>a b. s = a @ w @ b)"
  by (auto simp: re_search_iff match_here_lit_only startswith_iff)

lemma match_here_star_any:
  "match_here (Star AnyChar # rs) s \<longleftrightarrow>
     (\<exists>m r. s = m @ r \<and> CHR 0x0A \<notin> set m \<and> match_here rs r)"
proof (induction s)
  case Nil
  then show ?case by simp
next
  case (Cons c s)
  show ?case
  proof
    assume "match_here (Star AnyChar # rs) (c # s)"
    then consider "match_here rs (c # s)"
      | "c \<noteq> CHR 0x0A" "match_here (Star AnyChar # rs) s" by auto
    then show "\<exists>m r. c # s = m @ r \<and> CHR 0x0A \<notin> set m \<and> match_here rs r"
    proof cases
      case 1
      then have "c # s = [] @ (c # s) \<and> CHR 0x0A \<notin> set [] \<and> match_here rs (c # s)" by simp
      then show ?thesis by blast
    next
      case 2
      then obtain m r where "s = m @ r" "CHR 0x0A \<notin> set m" "match_here rs r"
        using Cons.IH by auto
      then have "c # s = (c # m) @ r \<and> CHR 0x0A \<notin> set (c # m) \<and> match_here rs r"
        using 2(1) by simp
      then show ?thesis by blast
    qed
  next
    assume "\<exists>m r. c # s = m @ r \<and> CHR 0x0A \<notin> set m \<and> match_here rs r"
    then obtain m r where mr: "c # s = m @ r" "CHR 0x0A \<notin> set m" "match_here rs r" by blast
    show "match_here (Star AnyChar # rs) (c # s)"
    proof (cases m)
      case Nil
      then have "r = c # s" using mr by simp
      then show ?thesis using mr(3) by simp
    next
      case (Cons x m')
      then have "s = m' @ r" "CHR 0x0A \<notin> set m'" "c \<noteq> CHR 0x0A" using mr by auto
      then have "match_here (Star AnyChar # rs) s" "c \<noteq> CHR 0x0A"
        using Cons.IH mr(3) by blast+
      then show ?thesis by simp
    qed
  qed
qed

lemma match_here_one:
  "match_here (One a # rs) s \<longleftrightarrow> (\<exists>c r. s = c # r \<and> atom_matches a c \<and> match_here rs r)"
  by (cases s) auto

lemma re_search_list_param:
  "re_search (lit ''youtube.com/'' @ [Star AnyChar, One (OneOf ''?&'')] @ lit ''list='') s \<longleftrightarrow>
     (\<exists>a m c b. s = a @ ''youtube.com/'' @ m @ c # ''list='' @ b \<and>
        CHR 0x0A \<notin> set m \<and> (c = CHR ''?'' \<or> c = CHR ''&''))"
proof
  assume "re_search (lit ''youtube.com/'' @ [Star AnyChar, One (OneOf ''?&'')] @ lit ''list='') s"
  then obtain a t where 1: "s = a @ t"
    "match_here (lit ''youtube.com/'' @ [Star AnyChar, One (OneOf ''?&'')] @ lit ''list='') t"
    unfolding re_search_iff by blast
  then obtain r where 2: "t = ''youtube.com/'' @ r"
    "match_here (Star AnyChar # One (OneOf ''?&'') # lit ''list='') r"
    unfolding match_here_lit by auto
  then obtain m r2 where 3: "r = m @ r2" "CHR 0x0A \<notin> set m"
    "match_here (One (OneOf ''?&'') # lit ''list='') r2"
    unfolding match_here_star_any by blast
  then obtain c r3 where 4: "r2 = c # r3" "atom_matches (OneOf ''?&'') c"
    "match_here (lit ''list='') r3"
    unfolding match_here_one by blast
  then obtain b where 5: "r3 = ''list='' @ b"
    unfolding match_here_lit_only startswith_iff by blast
  have "s = a @ ''youtube.com/'' @ m @ c # ''list='' @ b" using 1 2 3 4 5 by simp
  moreover have "c = CHR ''?'' \<or> c = CHR ''&''" using 4(2) by simp
  ultimately show "\<exists>a m c b. s = a @ ''youtube.com/'' @ m @ c # ''list='' @ b \<and>
        CHR 0x0A \<notin> set m \<and> (c = CHR ''?'' \<or> c = CHR ''&'')"
    using 3(2) by blast
next
  assume "\<exists>a m c b. s = a @ ''youtube.com/'' @ m @ c # ''list='' @ b \<and>
        CHR 0x0A \<notin> set m \<and> (c = CHR ''?'' \<or> c = CHR ''&'')"
  then obtain a m c b where s: "s = a @ ''youtube.com/'' @ m @ c # ''list='' @ b"
    and m: "CHR 0x0A \<notin> set m" and c: "c = CHR ''?'' \<or> c = CHR ''&''" by blast
  have "match_here (lit ''list='') (''list='' @ b)"
    unfolding match_here_lit_only startswith_iff by blast
  then have "match_here (One (OneOf ''?&'') # lit ''list='') (c # ''list='' @ b)"
    using c by auto
  then have "match_here (Star AnyChar # One (OneOf ''?&'') # lit ''list='') (m @ c # ''list='' @ b)"
    unfolding match_here_star_any using m by blast
  then have "match_here (lit ''youtube.com/'' @ [Star AnyChar, One (OneOf ''?&'')] @ lit ''list='')
      (''youtube.com/'' @ m @ c # ''list='' @ b)"
    unfolding match_here_lit by auto
  then show "re_search (lit ''youtube.com/'' @ [Star AnyChar, One (OneOf ''?&'')] @ lit ''list='') s"
    unfolding re_search_iff using s by blast
qed

lemma lower_append: "lower (a @ b) = lower a @ lower b"
  by (simp add: lower_def)

lemma lower_eq_append:
  "lower s = x @ w @ y \<longleftrightarrow> (\<exists>a m b. s = a @ m @ b \<and> lower a = x \<and> lower m = w \<and> lower b = y)"
proof
  assume "lower s = x @ w @ y"
  then have "map py_lower_char s = x @ (w @ y)" by (simp add: lower_def)
  then obtain a r where 1: "s = a @ r" "x = map py_lower_char a" "w @ y = map py_lower_char r"
    by (auto simp: map_eq_append_conv)
  from 1(3) obtain m b where 2: "r = m @ b" "w = map py_lower_char m" "y = map py_lower_char b"
    by (auto simp: append_eq_map_conv)
  have "s = a @ m @ b \<and> lower a = x \<and> lower m = w \<and> lower b = y"
    using 1(1,2) 2 by (simp add: lower_def)
  then show "\<exists>a m b. s = a @ m @ b \<and> lower a = x \<and> lower m = w \<and> lower b = y"
    by blast
next
  assume "\<exists>a m b. s = a @ m @ b \<and> lower a = x \<and> lower m = w \<and> lower b = y"
  then show "lower s = x @ w @ y" by (auto simp: lower_append)
qed

lemma is_valid_youtube_url_iff:
  "is_valid_youtube_url url \<longleftrightarrow>
     (\<exists>a b. lower url = a @ ''youtube.com/watch?v='' @ b)
     \<or> (\<exists>a b. lower url = a @ ''youtube.com/playlist?list='' @ b)
     \<or> (\<exists>a b. lower url = a @ ''youtu.be/'' @ b)
     \<or> (\<exists>a m c b. lower url = a @ ''youtube.com/'' @ m @ c # ''list='' @ b
            \<and> CHR 0x0A \<notin> set m \<and> (c = CHR ''?'' \<or> c = CHR ''&''))
     \<or> (\<exists>a b. lower url = a @ ''m.youtube.com/'' @ b)"
  unfolding is_valid_youtube_url_def youtube_patterns_def list_ex_Cons_iff list_ex_Nil_iff
    re_search_list_param re_search_lit
  by blast

section \<open>Facts about the example download\<close>

text \<open>The window after the example download, evaluated once.\<close>

lemma finished_video_gui_eq:
  "finished_video_gui =
    \<lparr>stop_flag = False, active_downloads = [],
    threads = [(''https://www.youtube.com/watch?v=abc123'', ''downloads'', False)],
    url_var = ''https://www.youtube.com/watch?v=abc123'', dir_var = [],
    audio_var = 0, progress_var = 0, progress_label_var = ''Progress: 1/1'',
    status_var = ''Video download completed!'',
    output_text =
      [(''Downloading video: Clip'' @ [CHR 0x0A], ''info''),
       (''Duration: 7 seconds'' @ [CHR 0x0A], ''info''),
       (''[download]   50.0% of ~    1.00MiB at 2.00MiB/s ETA 02:05 '' @ [CHR 0x0A], ''progress''),
       (''Status: Finished'' @ [CHR 0x0A], ''info''),
       (''[Merger] Merging formats into downloads/Clip.mp4'' @ [CHR 0x0A], ''info'')],
    download_btn = NORMAL, dialogs = []\<rparr>"
  by code_simp

section \<open>Facts about the progress hook and the callbacks\<close>

lemma progress_hook_stopped:
  "stop_flag g \<Longrightarrow> progress_hook fl ao tv d (vc, g) = (Raised stopped_by_user, vc, g)"
  by (simp add: progress_hook_def)

lemma truediv_not_stopped: "truediv fl ka a kb b \<noteq> Inl stopped_by_user"
  by (cases a; cases b) (simp_all add: truediv_def stopped_by_user_def)

lemma handle_download_progress_not_stopped:
  "fst (handle_download_progress fl d g) \<noteq> Raised stopped_by_user"
proof (cases "truediv fl ''downloaded_bytes'' (downloaded_bytes d) ''total_bytes'' (total_bytes d)")
  case (Inl e)
  then have "e \<noteq> stopped_by_user" using truediv_not_stopped by metis
  then show ?thesis using Inl by (simp add: handle_download_progress_def)
next
  case (Inr r)
  then show ?thesis by (simp add: handle_download_progress_def Let_def)
qed

lemma progress_hook_not_stopped:
  "\<not> stop_flag g \<Longrightarrow> fst (progress_hook fl ao tv d (vc, g)) \<noteq> Raised stopped_by_user"
  using handle_download_progress_not_stopped [of fl d g]
  by (auto simp: progress_hook_def split: prod.splits)

lemma feed_single_hook_not_stopped:
  "fst (progress_hook fl ao tv d st) \<noteq> Raised stopped_by_user \<Longrightarrow>
   fst (feed fl opts lg ao tv [Hook d] st) \<noteq> Raised stopped_by_user"
proof (cases "progress_hook fl ao tv d st")
  case (fields r vc g)
  then show "fst (progress_hook fl ao tv d st) \<noteq> Raised stopped_by_user \<Longrightarrow>
      fst (feed fl opts lg ao tv [Hook d] st) \<noteq> Raised stopped_by_user"
    by (cases r) simp_all
qed

lemma feed_tolerant:
  "ignoreerrors opts \<Longrightarrow> fst (feed fl opts lg ao tv steps st) = Returned"
proof (induction steps arbitrary: st)
  case Nil
  then show ?case by simp
next
  case (Cons x steps)
  show ?case
  proof (cases x)
    case (Hook d)
    obtain r vc g where ph: "progress_hook fl ao tv d st = (r, vc, g)"
      by (cases "progress_hook fl ao tv d st") auto
    show ?thesis
      using Hook ph Cons.IH [OF Cons.prems, of "(vc, g)"] Cons.prems by (cases r) simp_all
  next
    case (LogDebug msg)
    then show ?thesis using Cons.IH [OF Cons.prems] by simp
  next
    case (LogWarning msg)
    then show ?thesis using Cons.IH [OF Cons.prems] by simp
  next
    case (LogError msg)
    then show ?thesis using Cons.IH [OF Cons.prems] by simp
  next
    case (Interleaved f)
    then show ?thesis using Cons.IH [OF Cons.prems] by simp
  qed
qed

lemma ignoreerrors_set: "ignoreerrors (get_ydl_options ffmpeg_path output_dir audio_only)"
  by (simp add: get_ydl_options_def Let_def)

lemma write_to_output_stop_flag:
  "stop_flag (snd (write_to_output lg msg tag st)) = stop_flag (snd st)"
  by (cases st) (simp add: write_to_output_def Let_def split: option.splits)

lemma logger_stop_flag:
  "stop_flag (snd (debug lg msg st)) = stop_flag (snd st)"
  "stop_flag (snd (warning lg msg st)) = stop_flag (snd st)"
  "stop_flag (snd (error lg msg st)) = stop_flag (snd st)"
  by (simp_all add: debug_def warning_def error_def write_to_output_stop_flag)

lemma progress_hook_stop_flag:
  "stop_flag (snd (snd (progress_hook fl ao tv d st))) = stop_flag (snd st)"
proof (cases st)
  case (Pair vc g)
  show ?thesis
    unfolding Pair
    by (cases "truediv fl ''downloaded_bytes'' (downloaded_bytes d) ''total_bytes'' (total_bytes d)")
      (simp_all add: progress_hook_def handle_download_progress_def
        handle_download_finished_def Let_def)
qed

lemma feed_callbacks_stop_flag:
  "list_all is_callback steps \<Longrightarrow>
   stop_flag (snd (snd (feed fl opts lg ao tv steps st))) = stop_flag (snd st)"
proof (induction steps arbitrary: st)
  case Nil
  then show ?case by simp
next
  case (Cons x steps)
  then have rest: "list_all is_callback steps" by simp
  show ?case
  proof (cases x)
    case (Hook d)
    obtain r vc g where ph: "progress_hook fl ao tv d st = (r, vc, g)"
      by (cases "progress_hook fl ao tv d st") auto
    have g: "stop_flag g = stop_flag (snd st)"
      using progress_hook_stop_flag [of fl ao tv d st] ph by simp
    show ?thesis
      using Hook ph g Cons.IH [OF rest, of "(vc, g)"] by (cases r) simp_all
  next
    case (LogDebug msg)
    then show ?thesis using Cons.IH [OF rest] by (simp add: logger_stop_flag)
  next
    case (LogWarning msg)
    then show ?thesis using Cons.IH [OF rest] by (simp add: logger_stop_flag)
  next
    case (LogError msg)
    then show ?thesis using Cons.IH [OF rest] by (simp add: logger_stop_flag)
  next
    case (Interleaved f)
    then show ?thesis using Cons.prems by simp
  qed
qed

lemma startswith_substring_in: "startswith s w \<Longrightarrow> substring_in w s"
proof -
  assume "startswith s w"
  then obtain r where "s = [] @ w @ r" by (auto simp: startswith_iff)
  then show ?thesis unfolding substring_in_iff by blast
qed

lemma strip_head_not_space: "\<not> py_isspace c \<Longrightarrow> strip (c # r) \<noteq> []"
proof -
  assume c: "\<not> py_isspace c"
  then have "dropWhile py_isspace (rev (dropWhile py_isspace (c # r))) =
      dropWhile py_isspace (rev r @ [c])" by simp
  moreover have "dropWhile py_isspace (rev r @ [c]) \<noteq> []"
    unfolding dropWhile_eq_Nil_conv using c by auto
  ultimately show ?thesis by (simp add: strip_def)
qed

lemma merger_line_not_blank:
  "startswith msg ''[Merger] Merging formats into'' \<Longrightarrow> strip msg \<noteq> []"
proof -
  assume "startswith msg ''[Merger] Merging formats into''"
  then obtain r where "msg = CHR ''['' # r" by (auto simp: startswith_iff)
  moreover have "\<not> py_isspace CHR ''[''" by (simp add: py_isspace_def)
  ultimately show ?thesis using strip_head_not_space by simp
qed

lemma write_to_output_task:
  "write_to_output (task_logger tv ao) msg tag (vc, g) =
     (if \<not> ao \<and> startswith msg ''[Merger] Merging formats into''
      then (vc + 1, g\<lparr>output_text := output_text g @ [(msg @ [CHR 0x0A], tag)],
                       progress_label_var := progress_label (vc + 1) tv\<rparr>)
      else (vc, g\<lparr>output_text := output_text g @ [(msg @ [CHR 0x0A], tag)]\<rparr>))"
  by (simp add: write_to_output_def task_logger_def Let_def)

section \<open>Facts about the task\<close>

lemma download_video_process_completed:
  "makedirs_error sv = None \<Longrightarrow> extract_info sv = Inr info \<Longrightarrow> download_error sv = None \<Longrightarrow>
   fst (download_video_process fl ffmpeg_path sv u od ao g) = Returned
   \<and> status_var (snd (download_video_process fl ffmpeg_path sv u od ao g))
       = ''Video download completed!''"
proof -
  assume a: "makedirs_error sv = None" "extract_info sv = Inr info" "download_error sv = None"
  obtain r vc g2 where f: "feed fl (get_ydl_options ffmpeg_path od ao) (task_logger 1 ao) ao 1
      (schedule sv) (video_begun info ao g) = (r, vc, g2)"
    by (cases "feed fl (get_ydl_options ffmpeg_path od ao) (task_logger 1 ao) ao 1
      (schedule sv) (video_begun info ao g)") auto
  have "fst (feed fl (get_ydl_options ffmpeg_path od ao) (task_logger 1 ao) ao 1
      (schedule sv) (video_begun info ao g)) = Returned"
    using ignoreerrors_set by (rule feed_tolerant)
  then have "r = Returned" using f by simp
  then show ?thesis
    using a f by (simp add: download_video_process_def video_begun_def Let_def)
qed

lemma download_playlist_process_completed:
  "makedirs_error sv = None \<Longrightarrow> extract_info sv = Inr info \<Longrightarrow>
   len_entries (entries info) = Inr n \<Longrightarrow> download_error sv = None \<Longrightarrow>
   fst (download_playlist_process fl ffmpeg_path sv u od ao g) = Returned
   \<and> status_var (snd (download_playlist_process fl ffmpeg_path sv u od ao g))
       = ''Playlist download completed!''"
proof -
  assume a: "makedirs_error sv = None" "extract_info sv = Inr info"
    "len_entries (entries info) = Inr n" "download_error sv = None"
  obtain r vc g2 where f: "feed fl (get_ydl_options ffmpeg_path od ao) (task_logger n ao) ao n
      (schedule sv) (playlist_begun info n ao g) = (r, vc, g2)"
    by (cases "feed fl (get_ydl_options ffmpeg_path od ao) (task_logger n ao) ao n
      (schedule sv) (playlist_begun info n ao g)") auto
  have "fst (feed fl (get_ydl_options ffmpeg_path od ao) (task_logger n ao) ao n
      (schedule sv) (playlist_begun info n ao g)) = Returned"
    using ignoreerrors_set by (rule feed_tolerant)
  then have "r = Returned" using f by simp
  then show ?thesis
    using a f by (simp add: download_playlist_process_def playlist_begun_def Let_def)
qed

lemma run_returned:
  "(if is_playlist_url url
    then download_playlist_process fl ffmpeg_path sv url od ao
           (g0\<lparr>active_downloads := active_downloads g0 @ [tid]\<rparr>)
    else download_video_process fl ffmpeg_path sv url od ao
           (g0\<lparr>active_downloads := active_downloads g0 @ [tid]\<rparr>))
     = (Returned, g) \<Longrightarrow>
   run fl ffmpeg_path sv tid url od ao g0 =
     g\<lparr>active_downloads := remove1 tid (active_downloads g),
       download_btn := NORMAL, progress_var := 0\<rparr>"
  by (simp add: run_def Let_def remove1_idem)

lemma run_raised:
  "(if is_playlist_url url
    then download_playlist_process fl ffmpeg_path sv url od ao
           (g0\<lparr>active_downloads := active_downloads g0 @ [tid]\<rparr>)
    else download_video_process fl ffmpeg_path sv url od ao
           (g0\<lparr>active_downloads := active_downloads g0 @ [tid]\<rparr>))
     = (Raised e, g) \<Longrightarrow>
   run fl ffmpeg_path sv tid url od ao g0 =
     g\<lparr>status_var := ''Error: '' @ str_exn e,
       active_downloads := remove1 tid (active_downloads g),
       download_btn := NORMAL, progress_var := 0\<rparr>"
  by (simp add: run_def Let_def remove1_idem)

lemma stopped_run_eq:
  "run exact ffmpeg_exe stopped_service 0 watch_url ''downloads'' False
       (start_download (set_url watch_url initial_gui)) =
    \<lparr>stop_flag = True, active_downloads = [],
    threads = [(''https://www.youtube.com/watch?v=abc123'', ''downloads'', False)],
    url_var = ''https://www.youtube.com/watch?v=abc123'', dir_var = [],
    audio_var = 0, progress_var = 0, progress_label_var = ''Progress: 0/1'',
    status_var = ''Video download completed!'',
    output_text =
      [(''Downloading video: Clip'' @ [CHR 0x0A], ''info''),
       (''Duration: 7 seconds'' @ [CHR 0x0A], ''info''),
       (''[download]   50.0% of ~    1.00MiB at 2.00MiB/s ETA 02:05 '' @ [CHR 0x0A], ''progress''),
       (''[error] ERROR: Download stopped by user.'' @ [CHR 0x0A], ''error'')],
    download_btn = NORMAL, dialogs = []\<rparr>"
  by code_simp

text \<open>The window of the running example, evaluated once.\<close>

lemma running_video_gui_eq:
  "running_video_gui =
    \<lparr>stop_flag = False, active_downloads = [0],
    threads = [(''https://www.youtube.com/watch?v=abc123'', ''downloads'', False)],
    url_var = ''https://www.youtube.com/watch?v=abc123'', dir_var = [],
    audio_var = 0, progress_var = 50, progress_label_var = ''Progress: 0/1'',
    status_var = ''Downloading video...'',
    output_text =
      [(''Downloading video: Clip'' @ [CHR 0x0A], ''info''),
       (''Duration: 7 seconds'' @ [CHR 0x0A], ''info''),
       (''[download]   50.0% of ~    1.00MiB at 2.00MiB/s ETA 02:05 '' @ [CHR 0x0A], ''progress'')],
    download_btn = DISABLED, dialogs = []\<rparr>"
  by code_simp

lemma started_gui_active: "active_downloads (start_download (set_url watch_url initial_gui)) = []"
  by code_simp

section \<open>Facts about the formatted numbers and the progress line\<close>

lemma digit_char_cases:
  "k < 10 \<Longrightarrow> digit_char k \<in> set ''0123456789''"
proof -
  assume "k < 10"
  then have "k = 0 \<or> k = 1 \<or> k = 2 \<or> k = 3 \<or> k = 4 \<or> k = 5 \<or> k = 6 \<or> k = 7 \<or> k = 8 \<or> k = 9"
    by arith
  then show ?thesis by (auto simp: digit_char_def)
qed

lemma digit_char_low:
  "k < 6 \<Longrightarrow> digit_char k \<in> set ''012345''"
proof -
  assume "k < 6"
  then have "k = 0 \<or> k = 1 \<or> k = 2 \<or> k = 3 \<or> k = 4 \<or> k = 5" by arith
  then show ?thesis by (auto simp: digit_char_def)
qed

lemma str_nat_digits: "list_all is_digit (str_nat n)"
proof (induction n rule: str_nat.induct)
  case (1 n)
  show ?case
  proof (cases "n < 10")
    case True
    then show ?thesis
      using digit_char_cases [of n] by (subst str_nat.simps) (simp add: is_digit_def)
  next
    case False
    have "n mod 10 < 10" by simp
    then have "is_digit (digit_char (n mod 10))"
      using digit_char_cases [of "n mod 10"] by (simp add: is_digit_def)
    then show ?thesis
      using False "1.IH" by (subst str_nat.simps) simp
  qed
qed

lemma str_nat_small: "n < 10 \<Longrightarrow> str_nat n = [digit_char n]"
  by (subst str_nat.simps) simp

lemma str_nat_two: "10 \<le> n \<Longrightarrow> n < 100 \<Longrightarrow> str_nat n = [digit_char (n div 10), digit_char (n mod 10)]"
proof -
  assume a: "10 \<le> n" "n < 100"
  then have "n div 10 < 10" by simp
  then have "str_nat (n div 10) = [digit_char (n div 10)]" by (rule str_nat_small)
  then show ?thesis using a by (subst str_nat.simps) simp
qed

lemma str_nat_length: "10 \<le> n \<Longrightarrow> 2 \<le> length (str_nat n)"
proof -
  assume a: "10 \<le> n"
  have "str_nat (n div 10) \<noteq> []" by (subst str_nat.simps) simp
  then have "1 \<le> length (str_nat (n div 10))" by (cases "str_nat (n div 10)") simp_all
  then show ?thesis using a by (subst str_nat.simps) simp
qed

lemma format_02d_minutes:
  "0 \<le> m \<Longrightarrow> 2 \<le> length (format_02d m) \<and> list_all is_digit (format_02d m)"
proof (cases "m < 10")
  case True
  assume "0 \<le> m"
  then have "nat m < 10" using True by simp
  then have "str_nat (nat m) = [digit_char (nat m)]" by (rule str_nat_small)
  moreover have "list_all is_digit (str_nat (nat m))" by (rule str_nat_digits)
  ultimately show ?thesis using True \<open>0 \<le> m\<close>
    by (simp add: format_02d_def str_int_def is_digit_def)
next
  case False
  then have "10 \<le> nat m" by simp
  then have "2 \<le> length (str_nat (nat m))" by (rule str_nat_length)
  then show ?thesis using False str_nat_digits [of "nat m"]
    by (simp add: format_02d_def str_int_def)
qed

lemma format_02d_seconds:
  "0 \<le> s \<Longrightarrow> s < 60 \<Longrightarrow>
     \<exists>a b. format_02d s = [a, b] \<and> a \<in> set ''012345'' \<and> is_digit b"
proof (cases "s < 10")
  case True
  assume "0 \<le> s"
  then have n: "nat s < 10" using True by simp
  then have "str_nat (nat s) = [digit_char (nat s)]" by (rule str_nat_small)
  then have "format_02d s = [CHR ''0'', digit_char (nat s)]"
    using True \<open>0 \<le> s\<close> by (simp add: format_02d_def str_int_def)
  moreover have "is_digit (digit_char (nat s))"
    using digit_char_cases [OF n] by (simp add: is_digit_def)
  ultimately show ?thesis by simp
next
  case False
  assume "0 \<le> s" "s < 60"
  then have n: "10 \<le> nat s" "nat s < 60" using False by simp_all
  then have "str_nat (nat s) = [digit_char (nat s div 10), digit_char (nat s mod 10)]"
    by (intro str_nat_two) simp_all
  then have "format_02d s = [digit_char (nat s div 10), digit_char (nat s mod 10)]"
    using False by (simp add: format_02d_def str_int_def)
  moreover have "nat s div 10 < 6" using n by simp
  then have "digit_char (nat s div 10) \<in> set ''012345''" by (rule digit_char_low)
  moreover have "nat s mod 10 < 10" by simp
  then have "is_digit (digit_char (nat s mod 10))"
    using digit_char_cases [of "nat s mod 10"] by (simp add: is_digit_def)
  ultimately show ?thesis by blast
qed

lemma is_digit_not_colon: "is_digit c \<Longrightarrow> c \<noteq> CHR '':''"
  by (auto simp: is_digit_def)

lemma mm_ss_join:
  "2 \<le> length ms \<Longrightarrow> list_all is_digit ms \<Longrightarrow> a \<in> set ''012345'' \<Longrightarrow> is_digit b \<Longrightarrow>
     mm_ss (ms @ '':'' @ [a, b])"
proof -
  assume len: "2 \<le> length ms" and dig: "list_all is_digit ms"
    and a: "a \<in> set ''012345''" and b: "is_digit b"
  have nc: "\<And>c. c \<in> set ms \<Longrightarrow> c \<noteq> CHR '':''"
    using dig is_digit_not_colon unfolding list_all_iff by blast
  have t: "takeWhile (\<lambda>c. c \<noteq> CHR '':'') (ms @ CHR '':'' # [a, b]) = ms"
    using nc by (simp add: takeWhile_append2)
  have d: "dropWhile (\<lambda>c. c \<noteq> CHR '':'') (ms @ CHR '':'' # [a, b]) = [CHR '':'', a, b]"
    using nc by (simp add: dropWhile_append2)
  have "mm_ss (ms @ CHR '':'' # [a, b])"
    unfolding mm_ss_def Let_def t d list.case using len dig a b by blast
  then show ?thesis by simp
qed

lemma eta_str_mm_ss: "0 < t \<Longrightarrow> mm_ss (eta_str (Val t))"
proof -
  assume t: "0 < t"
  have m: "0 \<le> t div 60" using t by simp
  have s: "0 \<le> t mod 60" "t mod 60 < 60" by simp_all
  obtain a b where ab: "format_02d (t mod 60) = [a, b]" "a \<in> set ''012345''" "is_digit b"
    using format_02d_seconds [OF s] by blast
  have "mm_ss (format_02d (t div 60) @ '':'' @ [a, b])"
    using format_02d_minutes [OF m] ab(2,3) by (intro mm_ss_join) simp_all
  then show ?thesis using t ab(1) by (simp add: eta_str_def)
qed

lemma progress_hook_downloading:
  "\<not> stop_flag g \<Longrightarrow> status d = ''downloading'' \<Longrightarrow> downloaded_bytes d = Val db \<Longrightarrow>
   total_bytes d = Val tb \<Longrightarrow> tb \<noteq> 0 \<Longrightarrow>
   progress_hook fl ao tv d (vc, g) =
     (Returned, vc,
      g\<lparr>progress_var := fl (fl (of_int db / of_int tb) * 100),
        output_text := output_text g @
          [(progress_line fl (fl (fl (of_int db / of_int tb) * 100)) d @ [CHR 0x0A], ''progress'')]\<rparr>)"
  by (simp add: progress_hook_def handle_download_progress_def truediv_def Let_def)

lemma progress_hook_no_total:
  "\<not> stop_flag g \<Longrightarrow> status d = ''downloading'' \<Longrightarrow>
   total_bytes d = Absent \<or> total_bytes d = PyNone \<or> total_bytes d = Val 0 \<Longrightarrow>
   progress_hook fl ao tv d (vc, g) = (Returned, vc, g)"
  by (auto simp: progress_hook_def)

section \<open>The file name sanitizer\<close>

text \<open>
  Claim C6. Sanitizing is idempotent: sanitizing a sanitized name changes nothing. And
  whatever the input, none of the nine forbidden characters is left in the output.
\<close>

theorem sanitize_filename_idempotent_clean:
  "sanitize_filename (sanitize_filename s) = sanitize_filename s
   \<and> set (sanitize_filename s) \<inter> set forbidden_chars = {}"
  by (auto simp: sanitize_filename_def)

section \<open>Collections and single videos\<close>

text \<open>
  Claim C2, as the code has it. \<open>is_playlist_url\<close> is true exactly for the URLs that hold
  one of the two markers, in any mix of upper and lower case. So a URL with a marker is
  always a collection, and a URL of a single video is classified as a single video
  exactly when it holds neither marker.
\<close>

theorem is_playlist_url_marker:
  "is_playlist_url url \<longleftrightarrow>
     (\<exists>a m b. url = a @ m @ b \<and> (lower m = ''playlist'' \<or> lower m = ''list=''))"
proof -
  have "substring_in w (lower url) \<longleftrightarrow> (\<exists>a m b. url = a @ m @ b \<and> lower m = w)" for w
    unfolding substring_in_iff lower_eq_append by blast
  then show ?thesis unfolding is_playlist_url_def by blast
qed

text \<open>
  Claim C2, as the specification states it, fails for a watch-page URL without a list
  parameter whose video identifier contains the word \<open>playlist\<close>: the URL is valid, it
  matches the watch-page pattern, it has no \<open>list=\<close>, and it is classified as a
  collection.
\<close>

theorem is_playlist_url_single_video_counterexample:
  "is_valid_youtube_url ''https://www.youtube.com/watch?v=myplaylist1''
   \<and> re_search (lit ''youtube.com/watch?v='') (lower ''https://www.youtube.com/watch?v=myplaylist1'')
   \<and> \<not> substring_in ''list='' (lower ''https://www.youtube.com/watch?v=myplaylist1'')
   \<and> is_playlist_url ''https://www.youtube.com/watch?v=myplaylist1''"
  by code_simp

section \<open>Valid URLs\<close>

text \<open>
  Claim C9. \<open>is_valid_youtube_url\<close> is true exactly for the URLs whose lower-case form
  holds one of the five patterns: the watch page, the playlist page, the short link, a
  \<open>list=\<close> parameter after \<open>?\<close> or \<open>&\<close> somewhere behind \<open>youtube.com/\<close> on the same line,
  and the mobile domain. Each pattern holds \<open>youtube.com/\<close> or \<open>youtu.be/\<close>, so a URL
  with neither of these two markers is not valid.
\<close>

theorem is_valid_youtube_url_patterns:
  "(is_valid_youtube_url url \<longleftrightarrow>
      (\<exists>a b. lower url = a @ ''youtube.com/watch?v='' @ b)
      \<or> (\<exists>a b. lower url = a @ ''youtube.com/playlist?list='' @ b)
      \<or> (\<exists>a b. lower url = a @ ''youtu.be/'' @ b)
      \<or> (\<exists>a m c b. lower url = a @ ''youtube.com/'' @ m @ c # ''list='' @ b
             \<and> CHR 0x0A \<notin> set m \<and> (c = CHR ''?'' \<or> c = CHR ''&''))
      \<or> (\<exists>a b. lower url = a @ ''m.youtube.com/'' @ b))
   \<and> ((\<forall>a b. lower url \<noteq> a @ ''youtube.com/'' @ b) \<and> (\<forall>a b. lower url \<noteq> a @ ''youtu.be/'' @ b)
        \<longrightarrow> \<not> is_valid_youtube_url url)"
proof (intro conjI impI)
  show "is_valid_youtube_url url \<longleftrightarrow>
      (\<exists>a b. lower url = a @ ''youtube.com/watch?v='' @ b)
      \<or> (\<exists>a b. lower url = a @ ''youtube.com/playlist?list='' @ b)
      \<or> (\<exists>a b. lower url = a @ ''youtu.be/'' @ b)
      \<or> (\<exists>a m c b. lower url = a @ ''youtube.com/'' @ m @ c # ''list='' @ b
             \<and> CHR 0x0A \<notin> set m \<and> (c = CHR ''?'' \<or> c = CHR ''&''))
      \<or> (\<exists>a b. lower url = a @ ''m.youtube.com/'' @ b)"
    by (rule is_valid_youtube_url_iff)
next
  assume no: "(\<forall>a b. lower url \<noteq> a @ ''youtube.com/'' @ b) \<and> (\<forall>a b. lower url \<noteq> a @ ''youtu.be/'' @ b)"
  show "\<not> is_valid_youtube_url url"
  proof
    assume "is_valid_youtube_url url"
    then consider
        a b where "lower url = a @ ''youtube.com/watch?v='' @ b"
      | a b where "lower url = a @ ''youtube.com/playlist?list='' @ b"
      | a b where "lower url = a @ ''youtu.be/'' @ b"
      | a m c b where "lower url = a @ ''youtube.com/'' @ m @ c # ''list='' @ b"
      | a b where "lower url = a @ ''m.youtube.com/'' @ b"
      unfolding is_valid_youtube_url_iff by blast
    then show False
    proof cases
      case 1
      then have "lower url = a @ ''youtube.com/'' @ (''watch?v='' @ b)" by simp
      then show False using no by blast
    next
      case 2
      then have "lower url = a @ ''youtube.com/'' @ (''playlist?list='' @ b)" by simp
      then show False using no by blast
    next
      case 3
      then show False using no by blast
    next
      case 4
      then show False using no by blast
    next
      case 5
      then have "lower url = (a @ ''m.'') @ ''youtube.com/'' @ b" by simp
      then show False using no by blast
    qed
  qed
qed

text \<open>
  The theorem at the example of the specification that has no marker, and at one URL for
  each of the five patterns.
\<close>

theorem is_valid_youtube_url_patterns_witness:
  "\<not> is_valid_youtube_url ''https://example.com/abc''
   \<and> is_valid_youtube_url ''https://www.youtube.com/watch?v=abc123''
   \<and> is_valid_youtube_url ''https://www.youtube.com/playlist?list=XYZ''
   \<and> is_valid_youtube_url ''https://youtu.be/abc123''
   \<and> is_valid_youtube_url ''https://www.youtube.com/embed/abc123?list=XYZ''
   \<and> is_valid_youtube_url ''https://m.youtube.com/''"
proof -
  have n1: "\<not> substring_in ''youtube.com/'' (lower ''https://example.com/abc'')" by code_simp
  have n2: "\<not> substring_in ''youtu.be/'' (lower ''https://example.com/abc'')" by code_simp
  have "(\<forall>a b. lower ''https://example.com/abc'' \<noteq> a @ ''youtube.com/'' @ b)
      \<and> (\<forall>a b. lower ''https://example.com/abc'' \<noteq> a @ ''youtu.be/'' @ b)"
    using n1 n2 unfolding substring_in_iff by blast
  then have neg: "\<not> is_valid_youtube_url ''https://example.com/abc''"
    using is_valid_youtube_url_patterns [of "''https://example.com/abc''"] by blast
  have l1: "lower ''https://www.youtube.com/watch?v=abc123''
      = ''https://www.'' @ ''youtube.com/watch?v='' @ ''abc123''" by code_simp
  have p1: "is_valid_youtube_url ''https://www.youtube.com/watch?v=abc123''"
    using is_valid_youtube_url_patterns [of "''https://www.youtube.com/watch?v=abc123''"] l1
    by blast
  have l2: "lower ''https://www.youtube.com/playlist?list=XYZ''
      = ''https://www.'' @ ''youtube.com/playlist?list='' @ ''xyz''" by code_simp
  have p2: "is_valid_youtube_url ''https://www.youtube.com/playlist?list=XYZ''"
    using is_valid_youtube_url_patterns [of "''https://www.youtube.com/playlist?list=XYZ''"] l2
    by blast
  have l3: "lower ''https://youtu.be/abc123'' = ''https://'' @ ''youtu.be/'' @ ''abc123''"
    by code_simp
  have p3: "is_valid_youtube_url ''https://youtu.be/abc123''"
    using is_valid_youtube_url_patterns [of "''https://youtu.be/abc123''"] l3 by blast
  have l4: "lower ''https://www.youtube.com/embed/abc123?list=XYZ''
      = ''https://www.'' @ ''youtube.com/'' @ ''embed/abc123'' @ CHR ''?'' # ''list='' @ ''xyz''
      \<and> CHR 0x0A \<notin> set ''embed/abc123'' \<and> (CHR ''?'' = CHR ''?'' \<or> CHR ''?'' = CHR ''&'')"
    by code_simp
  have p4: "is_valid_youtube_url ''https://www.youtube.com/embed/abc123?list=XYZ''"
    using is_valid_youtube_url_patterns [of "''https://www.youtube.com/embed/abc123?list=XYZ''"] l4
    by blast
  have l5: "lower ''https://m.youtube.com/'' = ''https://'' @ ''m.youtube.com/'' @ []"
    by code_simp
  have p5: "is_valid_youtube_url ''https://m.youtube.com/''"
    using is_valid_youtube_url_patterns [of "''https://m.youtube.com/''"] l5 by blast
  show ?thesis using neg p1 p2 p3 p4 p5 by blast
qed

section \<open>Stop all\<close>

text \<open>
  Claim C4, as the code has it. \<open>stop_all_downloads\<close> always sets the stop flag and
  always leaves the list of active downloads empty, at once and without touching any
  thread. When the list was not empty it also resets the progress label to
  \<open>Progress: 0/0\<close> and the percentage to zero, enables the download button and sets the
  status to \<open>All downloads stopped.\<close>. When the list was empty it changes nothing but
  the stop flag and the status, which then reads \<open>No active downloads to stop.\<close>: the
  label, the percentage and the button stay as they were.
\<close>

theorem stop_all_downloads_effect:
  "stop_flag (stop_all_downloads g) = True
   \<and> active_downloads (stop_all_downloads g) = []
   \<and> threads (stop_all_downloads g) = threads g
   \<and> progress_label_var (stop_all_downloads g) =
       (if active_downloads g = [] then progress_label_var g else ''Progress: 0/0'')
   \<and> progress_var (stop_all_downloads g) =
       (if active_downloads g = [] then progress_var g else 0)
   \<and> download_btn (stop_all_downloads g) =
       (if active_downloads g = [] then download_btn g else NORMAL)
   \<and> status_var (stop_all_downloads g) =
       (if active_downloads g = [] then ''No active downloads to stop.''
        else ''All downloads stopped.'')
   \<and> stop_all_downloads g =
       (if active_downloads g = []
        then g\<lparr>stop_flag := True, status_var := ''No active downloads to stop.''\<rparr>
        else g\<lparr>stop_flag := True, active_downloads := [], download_btn := NORMAL,
               progress_var := 0, progress_label_var := ''Progress: 0/0'',
               status_var := ''All downloads stopped.''\<rparr>)"
  by (simp add: stop_all_downloads_def Let_def)

text \<open>
  Claim C4, as the specification states it, fails when nothing is active: after one
  video was downloaded the list is empty and the label reads \<open>Progress: 1/1\<close>, and
  stopping all downloads leaves that label.
\<close>

theorem stop_all_downloads_idle_counterexample:
  "active_downloads finished_video_gui = []
   \<and> progress_label_var finished_video_gui = ''Progress: 1/1''
   \<and> progress_label_var (stop_all_downloads finished_video_gui) = ''Progress: 1/1''"
  by (simp add: finished_video_gui_eq stop_all_downloads_def)

section \<open>Starting with an empty or invalid URL\<close>

text \<open>
  Claim C7. When the URL, stripped of white space, is empty or not valid,
  \<open>start_download\<close> creates no thread and leaves the list of active downloads alone: all
  it does is show an error dialog.
\<close>

theorem start_download_rejects:
  "strip (url_var g) = [] \<or> \<not> is_valid_youtube_url (strip (url_var g)) \<Longrightarrow>
     threads (start_download g) = threads g
     \<and> active_downloads (start_download g) = active_downloads g
     \<and> start_download g =
         g\<lparr>dialogs := dialogs g @
              [(''Error'', if strip (url_var g) = [] then ''Please enter a YouTube URL.''
                           else ''Please enter a valid YouTube URL.'')]\<rparr>"
  by (auto simp: start_download_def Let_def)

text \<open>
  The theorem at the initial window, whose URL is empty, and at a URL that is not empty
  and not valid.
\<close>

theorem start_download_rejects_witness:
  "start_download initial_gui =
     initial_gui\<lparr>dialogs := [(''Error'', ''Please enter a YouTube URL.'')]\<rparr>
   \<and> threads (start_download (initial_gui\<lparr>url_var := '' https://example.com/abc ''\<rparr>)) = []
   \<and> active_downloads (start_download (initial_gui\<lparr>url_var := '' https://example.com/abc ''\<rparr>)) = []
   \<and> dialogs (start_download (initial_gui\<lparr>url_var := '' https://example.com/abc ''\<rparr>)) =
       [(''Error'', ''Please enter a valid YouTube URL.'')]"
proof -
  have e: "strip (url_var initial_gui) = []" by code_simp
  have n: "strip (url_var (initial_gui\<lparr>url_var := '' https://example.com/abc ''\<rparr>)) \<noteq> []
      \<and> \<not> is_valid_youtube_url (strip (url_var (initial_gui\<lparr>url_var := '' https://example.com/abc ''\<rparr>)))"
    by code_simp
  have 1: "start_download initial_gui =
     initial_gui\<lparr>dialogs := [(''Error'', ''Please enter a YouTube URL.'')]\<rparr>"
    using start_download_rejects [of initial_gui] e by (simp add: initial_gui_def)
  have 2: "threads (start_download (initial_gui\<lparr>url_var := '' https://example.com/abc ''\<rparr>)) = []
   \<and> active_downloads (start_download (initial_gui\<lparr>url_var := '' https://example.com/abc ''\<rparr>)) = []
   \<and> dialogs (start_download (initial_gui\<lparr>url_var := '' https://example.com/abc ''\<rparr>)) =
       [(''Error'', ''Please enter a valid YouTube URL.'')]"
    using start_download_rejects [of "initial_gui\<lparr>url_var := '' https://example.com/abc ''\<rparr>"] n
    by (simp add: initial_gui_def)
  show ?thesis using 1 2 by blast
qed

section \<open>Cancelling a task\<close>

text \<open>
  Claim C5, evaluated on the code. Its first half holds: a progress callback that
  finds the stop flag set raises the cancellation and changes nothing, neither the
  window nor the counter. Its second half does not: the options that the task hands to
  the service set \<open>ignoreerrors\<close>, so the download never ends with an exception of the
  hook, the handler of \<open>run\<close> is not reached, and a task whose metadata resolves and
  whose download raises no error of its own ends with the status of a completed
  download, whether the stop flag was set on the way or not.
\<close>

theorem stop_is_absorbed_by_error_tolerance:
  "(stop_flag g \<longrightarrow> progress_hook fl ao tv d (vc, g) = (Raised stopped_by_user, vc, g))
   \<and> ignoreerrors (get_ydl_options fp od ao)
   \<and> fst (feed fl (get_ydl_options fp od ao) lg ao tv steps st) = Returned
   \<and> (\<not> is_playlist_url url \<and> makedirs_error sv = None \<and> extract_info sv = Inr info
        \<and> download_error sv = None \<longrightarrow>
        status_var (run fl fp sv tid url od ao g0) = ''Video download completed!'')
   \<and> (is_playlist_url url \<and> makedirs_error sv = None \<and> extract_info sv = Inr info
        \<and> len_entries (entries info) = Inr n \<and> download_error sv = None \<longrightarrow>
        status_var (run fl fp sv tid url od ao g0) = ''Playlist download completed!'')"
proof (intro conjI impI)
  show "progress_hook fl ao tv d (vc, g) = (Raised stopped_by_user, vc, g)" if "stop_flag g"
    using that by (rule progress_hook_stopped)
  show "ignoreerrors (get_ydl_options fp od ao)" by (rule ignoreerrors_set)
  show "fst (feed fl (get_ydl_options fp od ao) lg ao tv steps st) = Returned"
    using ignoreerrors_set by (rule feed_tolerant)
next
  let ?g1 = "g0\<lparr>active_downloads := active_downloads g0 @ [tid]\<rparr>"
  assume a: "\<not> is_playlist_url url \<and> makedirs_error sv = None \<and> extract_info sv = Inr info
        \<and> download_error sv = None"
  obtain r g' where b: "download_video_process fl fp sv url od ao ?g1 = (r, g')"
    by (cases "download_video_process fl fp sv url od ao ?g1") auto
  have c: "r = Returned \<and> status_var g' = ''Video download completed!''"
    using download_video_process_completed [of sv info fl fp url od ao ?g1] a b by simp
  then have "run fl fp sv tid url od ao g0 =
      g'\<lparr>active_downloads := remove1 tid (active_downloads g'),
        download_btn := NORMAL, progress_var := 0\<rparr>"
    using a b by (intro run_returned) simp
  then show "status_var (run fl fp sv tid url od ao g0) = ''Video download completed!''"
    using c by simp
next
  let ?g1 = "g0\<lparr>active_downloads := active_downloads g0 @ [tid]\<rparr>"
  assume a: "is_playlist_url url \<and> makedirs_error sv = None \<and> extract_info sv = Inr info
        \<and> len_entries (entries info) = Inr n \<and> download_error sv = None"
  obtain r g' where b: "download_playlist_process fl fp sv url od ao ?g1 = (r, g')"
    by (cases "download_playlist_process fl fp sv url od ao ?g1") auto
  have c: "r = Returned \<and> status_var g' = ''Playlist download completed!''"
    using download_playlist_process_completed [of sv info n fl fp url od ao ?g1] a b by simp
  then have "run fl fp sv tid url od ao g0 =
      g'\<lparr>active_downloads := remove1 tid (active_downloads g'),
        download_btn := NORMAL, progress_var := 0\<rparr>"
    using a b by (intro run_returned) simp
  then show "status_var (run fl fp sv tid url od ao g0) = ''Playlist download completed!''"
    using c by simp
qed

text \<open>
  The theorem at the example download in which the user stops the current download
  after the first progress event: the next progress callback raises the cancellation
  in the running window with the flag set, and yet the task ends with the status
  \<open>Video download completed!\<close> and the flag still set.
\<close>

theorem stop_is_absorbed_by_error_tolerance_witness:
  "progress_hook exact False 1 downloading_event (0, stop_download running_video_gui)
     = (Raised stopped_by_user, 0, stop_download running_video_gui)
   \<and> status_var (run exact ffmpeg_exe stopped_service 0 watch_url ''downloads'' False
         (start_download (set_url watch_url initial_gui))) = ''Video download completed!''
   \<and> stop_flag (run exact ffmpeg_exe stopped_service 0 watch_url ''downloads'' False
         (start_download (set_url watch_url initial_gui)))"
proof -
  have h1: "stop_flag (stop_download running_video_gui)" by (simp add: stop_download_def)
  have c1: "progress_hook exact False 1 downloading_event (0, stop_download running_video_gui)
     = (Raised stopped_by_user, 0, stop_download running_video_gui)"
    using stop_is_absorbed_by_error_tolerance [where g = "stop_download running_video_gui"
        and fl = exact and ao = False and tv = 1 and d = downloading_event and vc = 0,
        THEN conjunct1, rule_format, OF h1] .
  have h2: "\<not> is_playlist_url watch_url \<and> makedirs_error stopped_service = None
      \<and> extract_info stopped_service = Inr clip_info \<and> download_error stopped_service = None"
    by code_simp
  have c2: "status_var (run exact ffmpeg_exe stopped_service 0 watch_url ''downloads'' False
         (start_download (set_url watch_url initial_gui))) = ''Video download completed!''"
    using stop_is_absorbed_by_error_tolerance [where url = watch_url and sv = stopped_service
        and info = clip_info and fl = exact and fp = ffmpeg_exe and tid = 0
        and od = "''downloads''" and ao = False
        and ?g0.0 = "start_download (set_url watch_url initial_gui)",
        THEN conjunct2, THEN conjunct2, THEN conjunct2, THEN conjunct1, rule_format, OF h2] .
  have c3: "stop_flag (run exact ffmpeg_exe stopped_service 0 watch_url ''downloads'' False
         (start_download (set_url watch_url initial_gui)))"
    by (simp add: stopped_run_eq)
  show ?thesis using c1 c2 c3 by blast
qed

section \<open>A new download revokes a pending stop\<close>

text \<open>
  Claim C10. A start with a valid URL sets the one shared stop flag to false, whatever
  it was. So when the user stops (the current download, or all) and the next thing
  the task meets is a progress callback, that callback raises the cancellation; but
  when a new download is started in between, the flag is false again at that callback,
  and the callback does not raise the cancellation, nor does the older task's download
  end with it. No callback changes the flag, so it stays false through every callback
  that follows: the older task goes on without ever seeing the stop.
\<close>

theorem start_download_revokes_stop:
  "strip (url_var g) \<noteq> [] \<Longrightarrow> is_valid_youtube_url (strip (url_var g)) \<Longrightarrow>
     stop_flag (start_download g) = False
     \<and> stop_flag (start_download (stop_download g)) = False
     \<and> stop_flag (start_download (stop_all_downloads g)) = False
     \<and> fst (progress_hook fl ao tv d (vc, stop_download g)) = Raised stopped_by_user
     \<and> fst (progress_hook fl ao tv d (vc, stop_all_downloads g)) = Raised stopped_by_user
     \<and> fst (progress_hook fl ao tv d (vc, start_download (stop_download g)))
         \<noteq> Raised stopped_by_user
     \<and> fst (progress_hook fl ao tv d (vc, start_download (stop_all_downloads g)))
         \<noteq> Raised stopped_by_user
     \<and> fst (feed fl opts lg ao tv
              [Interleaved stop_download, Interleaved start_download, Hook d] (vc, g))
         \<noteq> Raised stopped_by_user
     \<and> fst (feed fl opts lg ao tv
              [Interleaved stop_all_downloads, Interleaved start_download, Hook d] (vc, g))
         \<noteq> Raised stopped_by_user
     \<and> (list_all is_callback steps \<longrightarrow>
          stop_flag (snd (snd (feed fl opts lg ao tv steps (vc, start_download (stop_download g)))))
            = False
          \<and> stop_flag (snd (snd (feed fl opts lg ao tv steps
                (vc, start_download (stop_all_downloads g))))) = False)"
proof -
  assume ne: "strip (url_var g) \<noteq> []" and ok: "is_valid_youtube_url (strip (url_var g))"
  have start: "stop_flag (start_download h) = False" if "url_var h = url_var g" for h
    using that ne ok by (simp add: start_download_def download_content_def Let_def)
  have u1: "url_var (stop_download g) = url_var g" by (simp add: stop_download_def)
  have u2: "url_var (stop_all_downloads g) = url_var g"
    by (simp add: stop_all_downloads_def Let_def)
  have s1: "stop_flag (stop_download g)" by (simp add: stop_download_def)
  have s2: "stop_flag (stop_all_downloads g)" by (simp add: stop_all_downloads_def Let_def)
  have a: "fst (progress_hook fl ao tv d (vc, stop_download g)) = Raised stopped_by_user"
    using progress_hook_stopped [OF s1] by simp
  have b: "fst (progress_hook fl ao tv d (vc, stop_all_downloads g)) = Raised stopped_by_user"
    using progress_hook_stopped [OF s2] by simp
  have c: "fst (progress_hook fl ao tv d (vc, start_download (stop_download g)))
      \<noteq> Raised stopped_by_user"
    using progress_hook_not_stopped [of "start_download (stop_download g)" fl ao tv d vc]
      start [OF u1] by simp
  have e: "fst (progress_hook fl ao tv d (vc, start_download (stop_all_downloads g)))
      \<noteq> Raised stopped_by_user"
    using progress_hook_not_stopped [of "start_download (stop_all_downloads g)" fl ao tv d vc]
      start [OF u2] by simp
  have fc: "fst (feed fl opts lg ao tv
              [Interleaved stop_download, Interleaved start_download, Hook d] (vc, g))
         \<noteq> Raised stopped_by_user"
    using feed_single_hook_not_stopped [OF c, of opts lg] by simp
  have fe: "fst (feed fl opts lg ao tv
              [Interleaved stop_all_downloads, Interleaved start_download, Hook d] (vc, g))
         \<noteq> Raised stopped_by_user"
    using feed_single_hook_not_stopped [OF e, of opts lg] by simp
  have k: "list_all is_callback steps \<longrightarrow>
          stop_flag (snd (snd (feed fl opts lg ao tv steps (vc, start_download (stop_download g)))))
            = False
          \<and> stop_flag (snd (snd (feed fl opts lg ao tv steps
                (vc, start_download (stop_all_downloads g))))) = False"
    using feed_callbacks_stop_flag [of steps fl opts lg ao tv] start [OF u1] start [OF u2]
    by simp
  show ?thesis using start [of g] start [OF u1] start [OF u2] a b c e fc fe k by simp
qed

text \<open>
  The theorem at the window of the running example download, whose URL is valid, with
  the example's progress event as the older task's next callback and two callbacks
  after it.
\<close>

theorem start_download_revokes_stop_witness:
  "stop_flag (start_download (stop_download running_video_gui)) = False
   \<and> stop_flag (start_download (stop_all_downloads running_video_gui)) = False
   \<and> fst (progress_hook exact False 1 downloading_event (0, stop_download running_video_gui))
       = Raised stopped_by_user
   \<and> fst (progress_hook exact False 1 downloading_event
            (0, start_download (stop_download running_video_gui)))
       \<noteq> Raised stopped_by_user
   \<and> fst (feed exact (get_ydl_options ffmpeg_exe ''downloads'' False) (task_logger 1 False) False 1
            [Interleaved stop_download, Interleaved start_download, Hook downloading_event]
            (0, running_video_gui))
       \<noteq> Raised stopped_by_user
   \<and> stop_flag (snd (snd (feed exact (get_ydl_options ffmpeg_exe ''downloads'' False)
            (task_logger 1 False) False 1 [Hook finished_event, LogDebug merger_line]
            (0, start_download (stop_download running_video_gui))))) = False"
proof -
  have h1: "strip (url_var running_video_gui) \<noteq> []" by code_simp
  have h2: "is_valid_youtube_url (strip (url_var running_video_gui))" by code_simp
  have h3: "list_all is_callback [Hook finished_event, LogDebug merger_line]" by simp
  show ?thesis
    using start_download_revokes_stop [OF h1 h2, where fl = exact
        and opts = "get_ydl_options ffmpeg_exe ''downloads'' False"
        and lg = "task_logger 1 False" and ao = False and tv = 1 and d = downloading_event
        and vc = 0 and steps = "[Hook finished_event, LogDebug merger_line]"] h3
    by blast
qed

section \<open>Counting completed items\<close>

text \<open>
  Claim C1. The handler of a \<open>finished\<close> event sets the percentage to 100 and adds one to
  the counter in audio mode only, and the progress hook hands a \<open>finished\<close> event to
  that handler when the stop flag is not set. In video mode the hook never changes the
  counter; there, a line written through the task's logger adds one exactly when it
  starts with \<open>[Merger] Merging formats into\<close>, a line that the logger's \<open>debug\<close>
  passes on unchanged, while \<open>warning\<close> and \<open>error\<close> put their own prefix in front.
  Each addition writes the label \<open>Progress: current/total\<close> with the new count.
\<close>

theorem finished_and_merger_counting:
  "fst (handle_download_finished d ao vc tv g) = (if ao then vc + 1 else vc)
   \<and> progress_var (snd (handle_download_finished d ao vc tv g)) = 100
   \<and> progress_label_var (snd (handle_download_finished d ao vc tv g)) =
       (if ao then progress_label (vc + 1) tv else progress_label_var g)
   \<and> (\<not> stop_flag g \<and> status d = ''finished'' \<longrightarrow>
        progress_hook fl ao tv d (vc, g) = (Returned, handle_download_finished d ao vc tv g))
   \<and> fst (snd (progress_hook fl False tv d (vc, g))) = vc
   \<and> fst (write_to_output (task_logger tv ao) msg tag (vc, g)) =
       (if \<not> ao \<and> startswith msg ''[Merger] Merging formats into'' then vc + 1 else vc)
   \<and> progress_label_var (snd (write_to_output (task_logger tv ao) msg tag (vc, g))) =
       (if \<not> ao \<and> startswith msg ''[Merger] Merging formats into''
        then progress_label (vc + 1) tv else progress_label_var g)
   \<and> fst (debug (task_logger tv ao) msg (vc, g)) =
       (if \<not> ao \<and> startswith msg ''[Merger] Merging formats into'' then vc + 1 else vc)
   \<and> fst (warning (task_logger tv ao) msg (vc, g)) = vc
   \<and> fst (error (task_logger tv ao) msg (vc, g)) = vc"
proof (intro conjI impI)
  show "fst (handle_download_finished d ao vc tv g) = (if ao then vc + 1 else vc)"
    by (simp add: handle_download_finished_def Let_def)
  show "progress_var (snd (handle_download_finished d ao vc tv g)) = 100"
    by (simp add: handle_download_finished_def Let_def)
  show "progress_label_var (snd (handle_download_finished d ao vc tv g)) =
       (if ao then progress_label (vc + 1) tv else progress_label_var g)"
    by (simp add: handle_download_finished_def Let_def)
  show "progress_hook fl ao tv d (vc, g) = (Returned, handle_download_finished d ao vc tv g)"
    if "\<not> stop_flag g \<and> status d = ''finished''"
    using that by (simp add: progress_hook_def split: prod.splits)
  show "fst (snd (progress_hook fl False tv d (vc, g))) = vc"
    by (simp add: progress_hook_def handle_download_finished_def Let_def split: prod.splits)
  show "fst (write_to_output (task_logger tv ao) msg tag (vc, g)) =
       (if \<not> ao \<and> startswith msg ''[Merger] Merging formats into'' then vc + 1 else vc)"
    by (simp add: write_to_output_task)
  show "progress_label_var (snd (write_to_output (task_logger tv ao) msg tag (vc, g))) =
       (if \<not> ao \<and> startswith msg ''[Merger] Merging formats into''
        then progress_label (vc + 1) tv else progress_label_var g)"
    by (simp add: write_to_output_task)
  show "fst (debug (task_logger tv ao) msg (vc, g)) =
       (if \<not> ao \<and> startswith msg ''[Merger] Merging formats into'' then vc + 1 else vc)"
    using merger_line_not_blank [of msg]
    by (auto simp: debug_def write_to_output_task)
  show "fst (warning (task_logger tv ao) msg (vc, g)) = vc"
    by (simp add: warning_def write_to_output_task)
  show "fst (error (task_logger tv ao) msg (vc, g)) = vc"
    by (simp add: error_def write_to_output_task)
qed

text \<open>
  The theorem at a \<open>finished\<close> event that arrives in audio mode, for a collection of
  three items, in the window of the running example.
\<close>

theorem finished_and_merger_counting_witness:
  "progress_hook exact True 3 finished_event (0, running_video_gui) =
     (Returned, handle_download_finished finished_event True 0 3 running_video_gui)
   \<and> fst (handle_download_finished finished_event True 0 3 running_video_gui) = 1
   \<and> progress_label_var (snd (handle_download_finished finished_event True 0 3 running_video_gui))
       = ''Progress: 1/3''"
proof -
  have h: "\<not> stop_flag running_video_gui \<and> status finished_event = ''finished''"
    by code_simp
  have l: "progress_label (0 + 1) 3 = ''Progress: 1/3''" by code_simp
  show ?thesis
    using finished_and_merger_counting [of finished_event True 0 3 running_video_gui exact] h l
    by simp
qed

section \<open>What a progress event reports\<close>

text \<open>
  Claim C8, as the code has it. For a \<open>downloading\<close> event that holds both byte counts,
  the total not zero, arriving while the stop flag is not set, the percentage shown is
  the quotient of the two counts times 100, as floating-point arithmetic computes it
  (each of the two operations rounds), and one line is added to the log. In that line
  the speed is the number of MiB per second with two decimals followed by \<open>MiB/s\<close>, or
  \<open>?\<close> when the event has no speed, \<open>None\<close> or zero; the estimated time is minutes and
  seconds in the format \<open>mm:ss\<close> when the event holds a positive number of seconds, and
  \<open>?\<close> when it has none, \<open>None\<close> or zero. An event whose total is missing, \<open>None\<close> or
  zero changes nothing at all.
\<close>

theorem downloading_event_reports:
  "(\<not> stop_flag g \<and> status d = ''downloading'' \<and> downloaded_bytes d = Val db
      \<and> total_bytes d = Val tb \<and> tb \<noteq> 0 \<longrightarrow>
      progress_hook fl ao tv d (vc, g) =
        (Returned, vc,
         g\<lparr>progress_var := fl (fl (of_int db / of_int tb) * 100),
           output_text := output_text g @
             [(progress_line fl (fl (fl (of_int db / of_int tb) * 100)) d @ [CHR 0x0A],
               ''progress'')]\<rparr>))
   \<and> progress_line fl percent d =
       ''[download]  '' @ format_f 5 1 percent @ ''% of ~ ''
         @ format_f 7 2 (size_mb fl (total_bytes d)) @ ''MiB at '' @ speed_str fl (speed d)
         @ '' ETA '' @ eta_str (eta d) @ '' '' @ frag_str d
   \<and> (speed d = Val s \<and> s \<noteq> 0 \<longrightarrow>
        speed_str fl (speed d) = format_f 0 2 (fl (fl (s / 1024) / 1024)) @ ''MiB/s'')
   \<and> (speed d = Absent \<or> speed d = PyNone \<or> speed d = Val 0 \<longrightarrow> speed_str fl (speed d) = ''?'')
   \<and> (eta d = Val t \<and> 0 < t \<longrightarrow>
        eta_str (eta d) = format_02d (t div 60) @ '':'' @ format_02d (t mod 60)
        \<and> mm_ss (eta_str (eta d)))
   \<and> (eta d = Absent \<or> eta d = PyNone \<or> eta d = Val 0 \<longrightarrow> eta_str (eta d) = ''?'')
   \<and> (\<not> stop_flag g \<and> status d = ''downloading''
        \<and> (total_bytes d = Absent \<or> total_bytes d = PyNone \<or> total_bytes d = Val 0) \<longrightarrow>
        progress_hook fl ao tv d (vc, g) = (Returned, vc, g))"
proof (intro conjI impI)
  show "progress_hook fl ao tv d (vc, g) =
        (Returned, vc,
         g\<lparr>progress_var := fl (fl (of_int db / of_int tb) * 100),
           output_text := output_text g @
             [(progress_line fl (fl (fl (of_int db / of_int tb) * 100)) d @ [CHR 0x0A],
               ''progress'')]\<rparr>)"
    if "\<not> stop_flag g \<and> status d = ''downloading'' \<and> downloaded_bytes d = Val db
      \<and> total_bytes d = Val tb \<and> tb \<noteq> 0"
    using that by (intro progress_hook_downloading) simp_all
  show "progress_line fl percent d =
       ''[download]  '' @ format_f 5 1 percent @ ''% of ~ ''
         @ format_f 7 2 (size_mb fl (total_bytes d)) @ ''MiB at '' @ speed_str fl (speed d)
         @ '' ETA '' @ eta_str (eta d) @ '' '' @ frag_str d"
    by (simp add: progress_line_def)
  show "speed_str fl (speed d) = format_f 0 2 (fl (fl (s / 1024) / 1024)) @ ''MiB/s''"
    if "speed d = Val s \<and> s \<noteq> 0"
    using that by (simp add: speed_str_def)
  show "speed_str fl (speed d) = ''?''"
    if "speed d = Absent \<or> speed d = PyNone \<or> speed d = Val 0"
    using that by (auto simp: speed_str_def)
  show "eta_str (eta d) = format_02d (t div 60) @ '':'' @ format_02d (t mod 60)"
    if "eta d = Val t \<and> 0 < t"
    using that by (simp add: eta_str_def)
  show "mm_ss (eta_str (eta d))" if "eta d = Val t \<and> 0 < t"
    using that eta_str_mm_ss [of t] by simp
  show "eta_str (eta d) = ''?''" if "eta d = Absent \<or> eta d = PyNone \<or> eta d = Val 0"
    using that by (auto simp: eta_str_def)
  show "progress_hook fl ao tv d (vc, g) = (Returned, vc, g)"
    if "\<not> stop_flag g \<and> status d = ''downloading''
        \<and> (total_bytes d = Absent \<or> total_bytes d = PyNone \<or> total_bytes d = Val 0)"
    using that by (intro progress_hook_no_total) simp_all
qed

text \<open>
  The theorem at the example's progress event (half of one MiB done, two MiB per second,
  125 seconds left), at an event without speed and time, and at an event whose total
  is \<open>None\<close>.
\<close>

theorem downloading_event_reports_witness:
  "progress_hook exact False 1 downloading_event (0, initial_gui) =
     (Returned, 0,
      initial_gui\<lparr>progress_var := 50,
        output_text :=
          [(''[download]   50.0% of ~    1.00MiB at 2.00MiB/s ETA 02:05 '' @ [CHR 0x0A],
            ''progress'')]\<rparr>)
   \<and> speed_str exact (speed downloading_event) = ''2.00MiB/s''
   \<and> speed_str exact (speed finished_event) = ''?''
   \<and> eta_str (eta downloading_event) = ''02:05'' \<and> mm_ss (eta_str (eta downloading_event))
   \<and> eta_str (eta finished_event) = ''?''
   \<and> progress_hook exact False 1 (downloading_event\<lparr>total_bytes := PyNone\<rparr>) (0, initial_gui)
       = (Returned, 0, initial_gui)"
proof -
  have h1: "\<not> stop_flag initial_gui \<and> status downloading_event = ''downloading''
      \<and> downloaded_bytes downloading_event = Val 524288
      \<and> total_bytes downloading_event = Val 1048576 \<and> (1048576 :: int) \<noteq> 0"
    by (simp add: initial_gui_def downloading_event_def)
  have pl: "progress_line exact 50 downloading_event
      = ''[download]   50.0% of ~    1.00MiB at 2.00MiB/s ETA 02:05 ''"
    by code_simp
  have pv: "exact (exact (of_int 524288 / of_int 1048576) * 100) = 50" by (simp add: exact_def)
  have out: "output_text initial_gui = []" by (simp add: initial_gui_def)
  have c1: "progress_hook exact False 1 downloading_event (0, initial_gui) =
     (Returned, 0,
      initial_gui\<lparr>progress_var := 50,
        output_text :=
          [(''[download]   50.0% of ~    1.00MiB at 2.00MiB/s ETA 02:05 '' @ [CHR 0x0A],
            ''progress'')]\<rparr>)"
    using downloading_event_reports [where fl = exact and ao = False and tv = 1 and vc = 0
        and g = initial_gui and d = downloading_event and db = 524288 and tb = 1048576,
        THEN conjunct1, rule_format, OF h1]
    unfolding pv pl out by simp
  have h3: "speed downloading_event = Val 2097152 \<and> (2097152 :: rat) \<noteq> 0"
    by (simp add: downloading_event_def)
  have f3: "format_f 0 2 (exact (exact (2097152 / 1024) / 1024)) @ ''MiB/s'' = ''2.00MiB/s''"
    by code_simp
  have c3: "speed_str exact (speed downloading_event) = ''2.00MiB/s''"
    using downloading_event_reports [where fl = exact and d = downloading_event and s = 2097152,
        THEN conjunct2, THEN conjunct2, THEN conjunct1, rule_format, OF h3]
    unfolding f3 by simp
  have h4: "speed finished_event = Absent \<or> speed finished_event = PyNone
      \<or> speed finished_event = Val 0"
    by (simp add: finished_event_def)
  have c4: "speed_str exact (speed finished_event) = ''?''"
    using downloading_event_reports [where fl = exact and d = finished_event,
        THEN conjunct2, THEN conjunct2, THEN conjunct2, THEN conjunct1, rule_format, OF h4]
    by simp
  have h5: "eta downloading_event = Val 125 \<and> (0 :: int) < 125"
    by (simp add: downloading_event_def)
  have f5: "format_02d (125 div 60) @ '':'' @ format_02d (125 mod 60) = ''02:05''"
    by code_simp
  have c5: "eta_str (eta downloading_event) = ''02:05'' \<and> mm_ss (eta_str (eta downloading_event))"
    using downloading_event_reports [where d = downloading_event and t = 125,
        THEN conjunct2, THEN conjunct2, THEN conjunct2, THEN conjunct2, THEN conjunct1,
        rule_format, OF h5]
    unfolding f5 by blast
  have h6: "eta finished_event = Absent \<or> eta finished_event = PyNone \<or> eta finished_event = Val 0"
    by (simp add: finished_event_def)
  have c6: "eta_str (eta finished_event) = ''?''"
    using downloading_event_reports [where d = finished_event,
        THEN conjunct2, THEN conjunct2, THEN conjunct2, THEN conjunct2, THEN conjunct2,
        THEN conjunct1, rule_format, OF h6]
    by simp
  have h7: "\<not> stop_flag initial_gui
      \<and> status (downloading_event\<lparr>total_bytes := PyNone\<rparr>) = ''downloading''
      \<and> (total_bytes (downloading_event\<lparr>total_bytes := PyNone\<rparr>) = Absent
         \<or> total_bytes (downloading_event\<lparr>total_bytes := PyNone\<rparr>) = PyNone
         \<or> total_bytes (downloading_event\<lparr>total_bytes := PyNone\<rparr>) = Val 0)"
    by (simp add: initial_gui_def downloading_event_def)
  have c7: "progress_hook exact False 1 (downloading_event\<lparr>total_bytes := PyNone\<rparr>) (0, initial_gui)
       = (Returned, 0, initial_gui)"
    using downloading_event_reports [where fl = exact and ao = False and tv = 1 and vc = 0
        and g = initial_gui and d = "downloading_event\<lparr>total_bytes := PyNone\<rparr>",
        THEN conjunct2, THEN conjunct2, THEN conjunct2, THEN conjunct2, THEN conjunct2,
        THEN conjunct2, rule_format, OF h7]
    by simp
  show ?thesis using c1 c3 c4 c5 c6 c7 by blast
qed

text \<open>
  Claim C8, as the specification states it, fails for an event that holds both byte
  counts and \<open>None\<close> as its estimated time, which the service sends while it cannot
  estimate: the percentage is reported, and the time in the line is \<open>?\<close>, which is not of
  the format \<open>mm:ss\<close>.
\<close>

theorem eta_unknown_counterexample:
  "status (downloading_event\<lparr>eta := PyNone\<rparr>) = ''downloading''
   \<and> downloaded_bytes (downloading_event\<lparr>eta := PyNone\<rparr>) = Val 524288
   \<and> total_bytes (downloading_event\<lparr>eta := PyNone\<rparr>) = Val 1048576
   \<and> progress_hook exact False 1 (downloading_event\<lparr>eta := PyNone\<rparr>) (0, initial_gui) =
       (Returned, 0,
        initial_gui\<lparr>progress_var := 50,
          output_text :=
            [(''[download]   50.0% of ~    1.00MiB at 2.00MiB/s ETA ? '' @ [CHR 0x0A],
              ''progress'')]\<rparr>)
   \<and> eta_str (eta (downloading_event\<lparr>eta := PyNone\<rparr>)) = ''?''
   \<and> \<not> mm_ss ''?''"
  by code_simp

section \<open>Naming the downloaded files\<close>

text \<open>
  Claim C3, as the code has it. Whatever the mode and the path of ffmpeg, the output
  template handed to the service is the fixed text \<open>%(title)s.%(ext)s\<close> joined to the
  destination directory. It names the title by the placeholder \<open>%(title)s\<close>; the title
  itself, sanitized or not, is no input of the options.
\<close>

theorem outtmpl_is_title_template:
  "outtmpl (get_ydl_options ffmpeg_path output_dir audio_only)
     = os_path_join output_dir ''%(title)s.%(ext)s''"
  by (simp add: get_ydl_options_def Let_def)

text \<open>
  Claim C3, as the specification states it, fails. The service does not know the
  sanitizer of the program, so the template can apply it to a title only by holding
  the sanitized title. For a title with a slash and a colon that template would be
  \<open>downloads/ACDC Live.%(ext)s\<close>; the template of the code is
  \<open>downloads/%(title)s.%(ext)s\<close> in video mode and in audio mode.
\<close>

theorem outtmpl_not_sanitized_counterexample:
  "outtmpl (get_ydl_options ffmpeg_exe ''downloads'' False) = ''downloads/%(title)s.%(ext)s''
   \<and> outtmpl (get_ydl_options ffmpeg_exe ''downloads'' True) = ''downloads/%(title)s.%(ext)s''
   \<and> os_path_join ''downloads'' (sanitize_filename ''AC/DC: Live'' @ ''.%(ext)s'')
       = ''downloads/ACDC Live.%(ext)s''
   \<and> outtmpl (get_ydl_options ffmpeg_exe ''downloads'' False)
       \<noteq> os_path_join ''downloads'' (sanitize_filename ''AC/DC: Live'' @ ''.%(ext)s'')"
  by code_simp

end
